theory Spec2Isabelle
  imports Complex_Main "HOL-Library.Sublist"
begin

section \<open>Values of the Python program\<close>

text \<open>
  The peak caller of \<^verbatim>\<open>starrpeaker/core.py\<close> computes with Python numbers and numpy
  float64 values.  A float64 is modelled by its value: a finite real, one of the two
  infinities, or NaN.  Finite arithmetic is exact (rounding, overflow to infinity and the
  sign of zero are left out); what the model keeps is the part of IEEE arithmetic that
  decides the control flow of the program: a division by zero gives an infinity or NaN
  and does not raise, NaN compares false with everything.
\<close>

datatype py_error =
    ZeroDivisionError
  | KeyError
  | ValueError
  | IndexError
  | UnboundLocalError
  | LibraryError

datatype npfloat = Fin real | PInf | NInf | NaN

text \<open>A scalar the program handles: a Python \<^verbatim>\<open>int\<close> or a numpy float64.\<close>

datatype scalar = PyInt int | NpFloat npfloat

fun fneg :: "npfloat \<Rightarrow> npfloat" where
  "fneg (Fin x) = Fin (- x)"
| "fneg PInf = NInf"
| "fneg NInf = PInf"
| "fneg NaN = NaN"

fun fabs :: "npfloat \<Rightarrow> npfloat" where
  "fabs (Fin x) = Fin \<bar>x\<bar>"
| "fabs PInf = PInf"
| "fabs NInf = PInf"
| "fabs NaN = NaN"

fun fadd :: "npfloat \<Rightarrow> npfloat \<Rightarrow> npfloat" where
  "fadd (Fin x) (Fin y) = Fin (x + y)"
| "fadd NaN _ = NaN"
| "fadd _ NaN = NaN"
| "fadd PInf NInf = NaN"
| "fadd NInf PInf = NaN"
| "fadd PInf _ = PInf"
| "fadd NInf _ = NInf"
| "fadd _ PInf = PInf"
| "fadd _ NInf = NInf"

definition fsub :: "npfloat \<Rightarrow> npfloat \<Rightarrow> npfloat" where
  "fsub a b = fadd a (fneg b)"

text \<open>The sign of a value, for products and quotients with an infinity.\<close>

fun fsign :: "npfloat \<Rightarrow> int" where
  "fsign (Fin x) = (if x < 0 then - 1 else if x = 0 then 0 else 1)"
| "fsign PInf = 1"
| "fsign NInf = - 1"
| "fsign NaN = 0"

definition inf_of_sign :: "int \<Rightarrow> npfloat" where
  "inf_of_sign s = (if s = 0 then NaN else if s < 0 then NInf else PInf)"

fun fmul :: "npfloat \<Rightarrow> npfloat \<Rightarrow> npfloat" where
  "fmul (Fin x) (Fin y) = Fin (x * y)"
| "fmul NaN _ = NaN"
| "fmul _ NaN = NaN"
| "fmul a b = inf_of_sign (fsign a * fsign b)"

text \<open>
  numpy's true division: a zero divisor does not raise; a nonzero finite value over zero
  is an infinity (with a \<^verbatim>\<open>RuntimeWarning: divide by zero\<close>), zero over zero is NaN.
\<close>

fun fdiv :: "npfloat \<Rightarrow> npfloat \<Rightarrow> npfloat" where
  "fdiv (Fin x) (Fin y) = (if y = 0 then inf_of_sign (fsign (Fin x)) else Fin (x / y))"
| "fdiv NaN _ = NaN"
| "fdiv _ NaN = NaN"
| "fdiv (Fin x) _ = Fin 0"
| "fdiv a (Fin y) = inf_of_sign (fsign a * (if y < 0 then - 1 else 1))"
| "fdiv _ _ = NaN"

fun flt :: "npfloat \<Rightarrow> npfloat \<Rightarrow> bool" where
  "flt (Fin x) (Fin y) = (x < y)"
| "flt NaN _ = False"
| "flt _ NaN = False"
| "flt NInf NInf = False"
| "flt NInf _ = True"
| "flt _ NInf = False"
| "flt PInf _ = False"
| "flt _ PInf = True"

definition fgt :: "npfloat \<Rightarrow> npfloat \<Rightarrow> bool" where
  "fgt a b = flt b a"

fun fle :: "npfloat \<Rightarrow> npfloat \<Rightarrow> bool" where
  "fle NaN _ = False"
| "fle _ NaN = False"
| "fle a b = (\<not> flt b a)"

fun fsqrt :: "npfloat \<Rightarrow> npfloat" where
  "fsqrt (Fin x) = (if x < 0 then NaN else Fin (sqrt x))"
| "fsqrt PInf = PInf"
| "fsqrt NInf = NaN"
| "fsqrt NaN = NaN"

definition fsquare :: "npfloat \<Rightarrow> npfloat" where
  "fsquare a = fmul a a"

definition to_float :: "scalar \<Rightarrow> npfloat" where
  "to_float s = (case s of PyInt i \<Rightarrow> Fin (of_int i) | NpFloat f \<Rightarrow> f)"

text \<open>
  The expression \<^verbatim>\<open>1 / th\<close>, with \<^verbatim>\<open>from __future__ import division\<close>: when
  \<^verbatim>\<open>th\<close> is a Python \<^verbatim>\<open>int\<close>, a zero divisor raises \<^verbatim>\<open>ZeroDivisionError\<close>;
  when it is a numpy float64, numpy divides.
\<close>

definition one_over :: "scalar \<Rightarrow> py_error + npfloat" where
  "one_over th =
     (case th of
        PyInt i \<Rightarrow> if i = 0 then Inl ZeroDivisionError else Inr (Fin (1 / of_int i))
      | NpFloat f \<Rightarrow> Inr (fdiv (Fin 1) f))"

text \<open>The builtin \<^verbatim>\<open>sum\<close> over an array: it starts from 0 and adds from the left.\<close>

definition py_sum :: "npfloat list \<Rightarrow> npfloat" where
  "py_sum xs = foldl fadd (Fin 0) xs"

section \<open>The dispersion estimator\<close>

text \<open>
  \<^verbatim>\<open>scipy.special.digamma\<close>, \<^verbatim>\<open>scipy.special.polygamma\<close> and \<^verbatim>\<open>numpy.log\<close> are
  library functions; the model takes them as parameters.
\<close>

record special =
  digamma :: "npfloat \<Rightarrow> npfloat"
  polygamma :: "nat \<Rightarrow> npfloat \<Rightarrow> npfloat"
  np_log :: "npfloat \<Rightarrow> npfloat"

definition trigamma :: "special \<Rightarrow> npfloat \<Rightarrow> npfloat" where
  "trigamma sp x = polygamma sp 1 x"

text \<open>
  \<^verbatim>\<open>score(th, mu, y, w)\<close> and \<^verbatim>\<open>info(th, mu, y, w)\<close>: the arrays are lists of equal
  length (theta checks the shapes before it calls them), the arithmetic is elementwise and
  in the order of the source expression.
\<close>

definition score_term :: "special \<Rightarrow> npfloat \<Rightarrow> int \<times> npfloat \<times> npfloat \<Rightarrow> npfloat" where
  "score_term sp th = (\<lambda>(w, y, m).
     fmul (Fin (of_int w))
       (fsub (fsub (fadd (fadd (fsub (digamma sp (fadd th y)) (digamma sp th)) (np_log sp th)) (Fin 1))
                   (np_log sp (fadd th m)))
             (fdiv (fadd y th) (fadd m th))))"

definition score :: "special \<Rightarrow> scalar \<Rightarrow> npfloat list \<Rightarrow> npfloat list \<Rightarrow> int list \<Rightarrow> npfloat" where
  "score sp th mu y w = py_sum (map (score_term sp (to_float th)) (zip w (zip y mu)))"

definition info_term :: "special \<Rightarrow> npfloat \<Rightarrow> npfloat \<Rightarrow> int \<times> npfloat \<times> npfloat \<Rightarrow> npfloat" where
  "info_term sp th r = (\<lambda>(w, y, m).
     fmul (Fin (of_int w))
       (fsub (fadd (fsub (fadd (fneg (trigamma sp (fadd th y))) (trigamma sp th)) r)
                   (fdiv (Fin 2) (fadd m th)))
             (fdiv (fadd y th) (fsquare (fadd m th)))))"

definition info :: "special \<Rightarrow> scalar \<Rightarrow> npfloat list \<Rightarrow> npfloat list \<Rightarrow> int list \<Rightarrow> py_error + npfloat" where
  "info sp th mu y w =
     (case one_over th of
        Inl e \<Rightarrow> Inl e
      | Inr r \<Rightarrow> Inr (py_sum (map (info_term sp (to_float th) r) (zip w (zip y mu)))))"

text \<open>\<^verbatim>\<open>eps = np.finfo(np.float).eps ** 0.25\<close>, that is \<open>(2^-52)^(1/4) = 2^-13\<close>.\<close>

definition eps :: npfloat where
  "eps = Fin (1 / 8192)"

definition limit :: nat where
  "limit = 20"

text \<open>
  The \<^verbatim>\<open>while (it < limit and abs(de) > eps)\<close> loop of \<^verbatim>\<open>theta\<close>, on the loop
  variables \<^verbatim>\<open>it\<close>, \<^verbatim>\<open>t0\<close> and \<^verbatim>\<open>de\<close>; it returns \<^verbatim>\<open>t0\<close> and \<^verbatim>\<open>it\<close> as the
  loop leaves them.
\<close>

function newton :: "special \<Rightarrow> npfloat list \<Rightarrow> npfloat list \<Rightarrow> int list \<Rightarrow>
    nat \<Rightarrow> npfloat \<Rightarrow> npfloat \<Rightarrow> py_error + (npfloat \<times> nat)" where
  "newton sp mu y w it t0 de =
     (if it < limit \<and> fgt (fabs de) eps then
        (let t = fabs t0 in
         case info sp (NpFloat t) mu y w of
           Inl e \<Rightarrow> Inl e
         | Inr i \<Rightarrow>
             (let de' = fdiv (score sp (NpFloat t) mu y w) i
              in newton sp mu y w (it + 1) (fadd t de') de'))
      else Inr (t0, it))"
  by pat_completeness auto
termination
  by (relation "measure (\<lambda>(sp, mu, y, w, it, t0, de). limit - it)") auto

declare newton.simps [simp del]

text \<open>
  \<^verbatim>\<open>theta(y, mu)\<close>, with the default \<^verbatim>\<open>verbose=False\<close> (the only way
  \<^verbatim>\<open>call_peak\<close> calls it).  The result is what was printed, and either the exception
  raised or the returned pair.  Two arrays of different length do not broadcast
  (\<^verbatim>\<open>ValueError\<close>; numpy's broadcasting of a one-element array is not modelled), and for
  empty arrays both \<^verbatim>\<open>n\<close> and the sum are the Python \<^verbatim>\<open>int\<close> 0, whose quotient raises.
\<close>

definition theta_init :: "npfloat list \<Rightarrow> npfloat list \<Rightarrow> int list \<Rightarrow> npfloat" where
  "theta_init y mu weights =
     fdiv (Fin (of_int (sum_list weights)))
       (py_sum (map (\<lambda>(w, y, m). fmul (Fin (of_int w)) (fsquare (fsub (fdiv y m) (Fin 1))))
                  (zip weights (zip y mu))))"

definition theta :: "special \<Rightarrow> npfloat list \<Rightarrow> npfloat list \<Rightarrow>
    string list \<times> (py_error + (scalar \<times> npfloat))" where
  "theta sp y mu =
     (if length y \<noteq> length mu then ([], Inl ValueError)
      else if y = [] then ([], Inl ZeroDivisionError)
      else
        (let weights = replicate (length y) 1 in
         case newton sp mu y weights 0 (theta_init y mu weights) (Fin 1) of
           Inl e \<Rightarrow> ([], Inl e)
         | Inr (t0, it) \<Rightarrow>
             (let t1 = (if flt t0 (Fin 0) then PyInt 0 else NpFloat t0);
                  out = (if flt t0 (Fin 0) then [''warning: estimate truncated at zero''] else [])
                        @ (if it = limit then [''warning: iteration limit reached''] else [])
              in case info sp t1 mu y weights of
                   Inl e \<Rightarrow> (out, Inl e)
                 | Inr i \<Rightarrow> (out, Inr (t1, fsqrt (fdiv (Fin 1) i))))))"

section \<open>The peak caller\<close>

subsection \<open>Input data\<close>

text \<open>
  A line of the bin file: chromosome, start, end and whatever columns follow.  A row of
  the count file: input, output and normalized input.  The matrix \<^verbatim>\<open>mat\<close> that
  \<^verbatim>\<open>call_peak\<close> builds has the output count in column 0 (the response), the normalized
  input in column 1 (the exposure) and the covariates after them.
\<close>

record bin =
  chrom :: string
  bstart :: int
  bend :: int
  extra :: "string list"

record bct_row =
  input_ct :: npfloat
  output_ct :: npfloat
  norm_input :: npfloat

record mrow =
  response :: npfloat
  exposure :: npfloat
  covariates :: "npfloat list"

text \<open>\<^verbatim>\<open>np.concatenate((bct[:, 1:], cov), axis=1)\<close>: the row counts must agree.\<close>

definition merge_data :: "bct_row list \<Rightarrow> npfloat list list \<Rightarrow> py_error + mrow list" where
  "merge_data bct cov =
     (if length bct \<noteq> length cov then Inl ValueError
      else Inr (map (\<lambda>(b, c). \<lparr>response = output_ct b, exposure = norm_input b, covariates = c\<rparr>)
                  (zip bct cov)))"

text \<open>
  What \<^verbatim>\<open>call_peak\<close> reads from a fitted regression model: the fitted means
  \<^verbatim>\<open>model.mu\<close> and the coefficients \<^verbatim>\<open>model.params\<close>.
\<close>

record glm_result =
  fit_mu :: "npfloat list"
  fit_params :: "npfloat list"

subsection \<open>The two filters\<close>

text \<open>
  \<^verbatim>\<open>nonZeroInput = mat[:, 1] > minInput\<close>, where \<^verbatim>\<open>minInput\<close> is the quantile that
  \<^verbatim>\<open>np.quantile\<close> gives for the positive exposures.
\<close>

definition positive_exposures :: "mrow list \<Rightarrow> npfloat list" where
  "positive_exposures mat = filter (\<lambda>x. fgt x (Fin 0)) (map exposure mat)"

definition nonZeroInput :: "mrow list \<Rightarrow> npfloat \<Rightarrow> bool list" where
  "nonZeroInput mat minInput = map (\<lambda>r. fgt (exposure r) minInput) mat"

text \<open>
  The loop over the bin file that fills \<^verbatim>\<open>nonSliding\<close>, an array of \<^verbatim>\<open>mat.shape[0]\<close>
  entries that starts all False.  The loop variables are the index \<^verbatim>\<open>i\<close>,
  \<^verbatim>\<open>lastchr\<close> and \<^verbatim>\<open>lastbin\<close>; an assignment past the end of the array raises
  \<^verbatim>\<open>IndexError\<close>.
\<close>

fun nonSliding_loop :: "bool list \<Rightarrow> nat \<Rightarrow> string \<Rightarrow> int \<Rightarrow> bin list \<Rightarrow> py_error + bool list" where
  "nonSliding_loop arr i lastchr lastbin [] = Inr arr"
| "nonSliding_loop arr i lastchr lastbin (b # bs) =
     (if chrom b \<noteq> lastchr then
        (if i < length arr then nonSliding_loop (arr[i := True]) (Suc i) (chrom b) (bend b) bs
         else Inl IndexError)
      else if bstart b \<ge> lastbin then
        (if i < length arr then nonSliding_loop (arr[i := True]) (Suc i) lastchr (bend b) bs
         else Inl IndexError)
      else nonSliding_loop arr (Suc i) lastchr lastbin bs)"

definition nonSliding :: "nat \<Rightarrow> bin list \<Rightarrow> py_error + bool list" where
  "nonSliding n bed = nonSliding_loop (replicate n False) 0 '''' 0 bed"

text \<open>
  Selection by a boolean mask: \<^verbatim>\<open>mat[mask, :]\<close> and
  \<^verbatim>\<open>itertools.compress(lines, mask)\<close> both keep, in order, the entries whose mask is True.
\<close>

definition compress :: "'a list \<Rightarrow> bool list \<Rightarrow> 'a list" where
  "compress xs selectors = map fst (filter snd (zip xs selectors))"

definition mask_and :: "bool list \<Rightarrow> bool list \<Rightarrow> bool list" where
  "mask_and a b = map (\<lambda>(p, q). p \<and> q) (zip a b)"

definition training_rows :: "mrow list \<Rightarrow> bool list \<Rightarrow> bool list \<Rightarrow> mrow list" where
  "training_rows mat nz ns = compress mat (mask_and nz ns)"

definition prediction_rows :: "mrow list \<Rightarrow> bool list \<Rightarrow> mrow list" where
  "prediction_rows mat nz = compress mat nz"

section \<open>Centering the merged peaks\<close>

text \<open>
  A merged peak is a line of the merged-peak file: chromosome, start, end and the score
  columns (\<^verbatim>\<open>p[3:]\<close>).  A record of the coverage track is chromosome, start, end and
  depth.  \<^verbatim>\<open>bedtools intersect -wa -wb\<close> writes, for a peak and a coverage record that
  overlap, the peak's columns followed by the coverage record's; with the seven columns
  of a merged peak, columns 8, 9 and 10 of such a line are the start, the end and the
  depth of the coverage record.  The key \<^verbatim>\<open>pid\<close>, the text
  \<^verbatim>\<open>chr_start_end\<close> of a peak, is modelled by the triple of the three fields.  Depths
  and window sums are integers (the program holds them in int64 arrays; the model does not
  bound them).
\<close>

record peak_rec =
  p_chr :: string
  p_start :: int
  p_end :: int
  p_other :: "string list"

record cov_rec =
  c_chr :: string
  c_start :: int
  c_end :: int
  c_depth :: int

type_synonym pid = "string \<times> int \<times> int"

type_synonym coverage_dict = "pid \<rightharpoonup> (int \<times> int \<times> int) list"

definition pid_of :: "peak_rec \<Rightarrow> pid" where
  "pid_of p = (p_chr p, p_start p, p_end p)"

text \<open>
  A reference model of \<^verbatim>\<open>intersect(wa=True, wb=True)\<close>, as the bedtools manual
  describes it: one line per pair of a peak and a coverage record on the same chromosome
  that share at least one base, peaks in file order.  The theorems below hold for any
  intersect function; the reference model is used for concrete runs.
\<close>

definition overlaps :: "peak_rec \<Rightarrow> cov_rec \<Rightarrow> bool" where
  "overlaps p c = (p_chr p = c_chr c \<and> p_start p < c_end c \<and> c_start c < p_end p)"

definition bedtools_intersect :: "peak_rec list \<Rightarrow> cov_rec list \<Rightarrow> (peak_rec \<times> cov_rec) list" where
  "bedtools_intersect peaks track =
     concat (map (\<lambda>p. map (\<lambda>c. (p, c)) (filter (overlaps p) track)) peaks)"

text \<open>The first loop of \<^verbatim>\<open>center_peak\<close>: the dictionary \<^verbatim>\<open>coverage\<close>.\<close>

definition add_coverage :: "coverage_dict \<Rightarrow> peak_rec \<times> cov_rec \<Rightarrow> coverage_dict" where
  "add_coverage coverage = (\<lambda>(p, c).
     (case coverage (pid_of p) of
        Some l \<Rightarrow> coverage(pid_of p \<mapsto> l @ [(c_start c, c_end c, c_depth c)])
      | None \<Rightarrow> coverage(pid_of p \<mapsto> [(c_start c, c_end c, c_depth c)])))"

definition build_coverage :: "(peak_rec \<times> cov_rec) list \<Rightarrow> coverage_dict" where
  "build_coverage peak_coverage = foldl add_coverage Map.empty peak_coverage"

text \<open>
  Slices of a one-dimensional array, as Python and numpy read the bounds: a negative
  bound counts from the end, and a bound outside the array is clipped.
\<close>

definition slice_bound :: "nat \<Rightarrow> int \<Rightarrow> nat" where
  "slice_bound n i = (if i < 0 then nat (max 0 (i + int n)) else min (nat i) n)"

definition slice_assign :: "int list \<Rightarrow> int \<Rightarrow> int \<Rightarrow> int \<Rightarrow> int list" where
  "slice_assign mat a b v =
     (let lo = slice_bound (length mat) a; hi = slice_bound (length mat) b
      in map (\<lambda>(k, x). if lo \<le> k \<and> k < hi then v else x) (zip [0..<length mat] mat))"

definition slice_get :: "int list \<Rightarrow> int \<Rightarrow> int \<Rightarrow> int list" where
  "slice_get mat a b =
     (let lo = slice_bound (length mat) a; hi = slice_bound (length mat) b
      in take (hi - lo) (drop lo mat))"

definition np_max :: "int list \<Rightarrow> int" where
  "np_max xs = foldl max (hd xs) (tl xs)"

definition argwhere_eq :: "int list \<Rightarrow> int \<Rightarrow> nat list" where
  "argwhere_eq xs v = filter (\<lambda>i. xs ! i = v) [0..<length xs]"

text \<open>
  The array \<^verbatim>\<open>mat\<close> of depths over the peak and the array \<^verbatim>\<open>depth\<close> of window
  sums, as the two inner loops of \<^verbatim>\<open>center_peak\<close> fill them.
\<close>

definition fill_mat :: "int \<Rightarrow> nat \<Rightarrow> (int \<times> int \<times> int) list \<Rightarrow> int list" where
  "fill_mat start n cov =
     foldl (\<lambda>mat (c0, c1, c2). slice_assign mat (c0 - start) (c1 - start) c2) (replicate n 0) cov"

definition window_sums :: "int list \<Rightarrow> int \<Rightarrow> nat \<Rightarrow> int list" where
  "window_sums mat windowSize n =
     map (\<lambda>idx. sum_list (slice_get mat (int idx) (int idx + windowSize))) [0..<n]"

text \<open>
  The body of the loop over the peaks.  It raises, or it returns the peaks it warned
  about and the line it wrote, if any.  \<^verbatim>\<open>np.zeros\<close> of a negative size raises
  \<^verbatim>\<open>ValueError\<close>, and so does \<^verbatim>\<open>np.max\<close> of an empty array.
\<close>

type_synonym centered = "string \<times> int \<times> int \<times> string list"

definition center_one :: "int \<Rightarrow> coverage_dict \<Rightarrow> peak_rec \<Rightarrow> py_error + (peak_rec list \<times> centered list)" where
  "center_one windowSize coverage p =
     (case coverage (pid_of p) of
        None \<Rightarrow> Inl KeyError
      | Some cov \<Rightarrow>
          if length cov = 0 then Inr ([p], [])
          else if p_end p - p_start p < 0 then Inl ValueError
          else
            (let mat = fill_mat (p_start p) (nat (p_end p - p_start p)) cov in
             if p_end p - p_start p - windowSize + 1 < 0 then Inl ValueError
             else
               (let depth = window_sums mat windowSize (nat (p_end p - p_start p - windowSize + 1)) in
                if depth = [] then Inl ValueError
                else
                  (let peakstarts = argwhere_eq depth (np_max depth)
                   in Inr ([], [(p_chr p, int (hd peakstarts) + p_start p,
                                 int (last peakstarts) + p_start p + windowSize, p_other p)])))))"

text \<open>
  The loop over the peaks: what was written to the centered-peak file, the peaks warned
  about, and the exception that ended the loop, if one did.
\<close>

fun center_loop :: "int \<Rightarrow> coverage_dict \<Rightarrow> peak_rec list \<Rightarrow>
    centered list \<times> peak_rec list \<times> py_error option" where
  "center_loop windowSize coverage [] = ([], [], None)"
| "center_loop windowSize coverage (p # ps) =
     (case center_one windowSize coverage p of
        Inl e \<Rightarrow> ([], [], Some e)
      | Inr (warned, line) \<Rightarrow>
          (case center_loop windowSize coverage ps of
             (out, warnings, err) \<Rightarrow> (line @ out, warned @ warnings, err)))"

definition center_peak :: "(peak_rec list \<Rightarrow> cov_rec list \<Rightarrow> (peak_rec \<times> cov_rec) list) \<Rightarrow>
    peak_rec list \<Rightarrow> cov_rec list \<Rightarrow> int \<Rightarrow> centered list \<times> peak_rec list \<times> py_error option" where
  "center_peak intersect peak track windowSize =
     center_loop windowSize (build_coverage (intersect peak track)) peak"

section \<open>The pipeline of \<^verbatim>\<open>call_peak\<close>\<close>

text \<open>
  A line of the peak file carries the bin and the four values the program formats into it
  (the model keeps the values, not their decimal text); a line of the p-value track
  carries the bin and one value.
\<close>

record peak_row =
  pk_bin :: bin
  pk_p_score :: npfloat
  pk_q_score :: npfloat
  pk_pval :: npfloat
  pk_pval_adj :: npfloat

text \<open>
  What \<^verbatim>\<open>call_peak\<close> asks of numpy (\<^verbatim>\<open>np.quantile\<close>, \<^verbatim>\<open>np.log10\<close>), statsmodels
  (the two regression fits, the prediction, the Benjamini-Hochberg correction), scipy
  (\<^verbatim>\<open>nbinom.cdf\<close>) and bedtools (\<^verbatim>\<open>merge\<close>, \<^verbatim>\<open>intersect\<close>): parameters of the model.
  A regression fit may fail; the other calls return a value.
\<close>

record external =
  np_quantile :: "npfloat list \<Rightarrow> npfloat \<Rightarrow> npfloat"
  poisson_glm :: "mrow list \<Rightarrow> py_error + glm_result"
  negbin_glm :: "npfloat \<Rightarrow> mrow list \<Rightarrow> npfloat list \<Rightarrow> py_error + glm_result"
  glm_predict :: "glm_result \<Rightarrow> mrow list \<Rightarrow> npfloat list"
  nbinom_cdf :: "npfloat \<Rightarrow> npfloat \<Rightarrow> npfloat \<Rightarrow> npfloat"
  fdr_bh :: "npfloat list \<Rightarrow> npfloat list"
  np_log10 :: "npfloat \<Rightarrow> npfloat"
  bedtools_merge :: "peak_row list \<Rightarrow> peak_rec list"
  intersect :: "peak_rec list \<Rightarrow> cov_rec list \<Rightarrow> (peak_rec \<times> cov_rec) list"

text \<open>
  The p-values: \<^verbatim>\<open>theta_hat = np.repeat(th, len(y_hat))\<close>,
  \<^verbatim>\<open>prob = th / (th + y_hat)\<close> and
  \<^verbatim>\<open>pval = 1 - nbinom.cdf(mat[nonZeroInput, 0] - 1, n=theta_hat, p=prob)\<close>, elementwise;
  arrays of different length do not broadcast.
\<close>

definition p_values :: "external \<Rightarrow> scalar \<Rightarrow> npfloat list \<Rightarrow> npfloat list \<Rightarrow> py_error + npfloat list" where
  "p_values ext th y_hat ys =
     (let theta_hat = replicate (length y_hat) (to_float th);
          prob = map (\<lambda>m. fdiv (to_float th) (fadd (to_float th) m)) y_hat
      in if length ys \<noteq> length y_hat then Inl ValueError
         else Inr (map (\<lambda>(k, n, p). fsub (Fin 1) (nbinom_cdf ext (fsub k (Fin 1)) n p))
                     (zip ys (zip theta_hat prob))))"

text \<open>
  The dispersion \<^verbatim>\<open>alpha=1 / th0\<close> that \<^verbatim>\<open>call_peak\<close> hands to the negative-binomial
  family, where \<^verbatim>\<open>th0\<close> is what \<^verbatim>\<open>theta\<close> returned.
\<close>

definition nb_alpha :: "scalar \<Rightarrow> py_error + npfloat" where
  "nb_alpha th0 = one_over th0"

text \<open>
  From the Poisson fit to the p-values, on the rows used for fitting (\<^verbatim>\<open>train\<close>) and
  the rows used for prediction (\<^verbatim>\<open>pred\<close>).
\<close>

definition significance :: "external \<Rightarrow> special \<Rightarrow> mrow list \<Rightarrow> mrow list \<Rightarrow> py_error + npfloat list" where
  "significance ext sp train pred =
     (case poisson_glm ext train of
        Inl e \<Rightarrow> Inl e
      | Inr model0 \<Rightarrow>
     (case snd (theta sp (map response train) (fit_mu model0)) of
        Inl e \<Rightarrow> Inl e
      | Inr (th0, se0) \<Rightarrow>
     (case nb_alpha th0 of
        Inl e \<Rightarrow> Inl e
      | Inr alpha \<Rightarrow>
     (case negbin_glm ext alpha train (fit_params model0) of
        Inl e \<Rightarrow> Inl e
      | Inr model \<Rightarrow>
     (case snd (theta sp (map response train) (fit_mu model)) of
        Inl e \<Rightarrow> Inl e
      | Inr (th, se) \<Rightarrow>
          p_values ext th (glm_predict ext model pred) (map response pred))))))"

text \<open>
  The local variables of \<^verbatim>\<open>call_peak\<close> that the output loops read.  \<^verbatim>\<open>del\<close> unbinds
  a variable; reading an unbound local raises \<^verbatim>\<open>UnboundLocalError\<close>, and an index past
  the end of an array raises \<^verbatim>\<open>IndexError\<close>.
\<close>

record locals =
  p_score :: "npfloat list option"
  q_score :: "npfloat list option"
  pval :: "npfloat list option"
  pval_adj :: "npfloat list option"

definition load :: "npfloat list option \<Rightarrow> nat \<Rightarrow> py_error + npfloat" where
  "load v i =
     (case v of
        None \<Rightarrow> Inl UnboundLocalError
      | Some xs \<Rightarrow> if i < length xs then Inr (xs ! i) else Inl IndexError)"

text \<open>
  The loop that writes the peak file and the loop that writes the p-value track, over the
  bins that \<^verbatim>\<open>compress(bed.readlines(), nonZeroInput)\<close> keeps.  Each returns the lines
  written and the exception that ended it, if one did.
\<close>

fun peak_loop :: "locals \<Rightarrow> npfloat \<Rightarrow> nat \<Rightarrow> bin list \<Rightarrow> peak_row list \<times> py_error option" where
  "peak_loop env threshold i [] = ([], None)"
| "peak_loop env threshold i (b # bs) =
     (case load (pval_adj env) i of
        Inl e \<Rightarrow> ([], Some e)
      | Inr pa \<Rightarrow>
          if fle pa threshold then
            (case load (p_score env) i of Inl e \<Rightarrow> ([], Some e) | Inr ps \<Rightarrow>
             case load (q_score env) i of Inl e \<Rightarrow> ([], Some e) | Inr qs \<Rightarrow>
             case load (pval env) i of Inl e \<Rightarrow> ([], Some e) | Inr pv \<Rightarrow>
             case load (pval_adj env) i of Inl e \<Rightarrow> ([], Some e) | Inr pa' \<Rightarrow>
             case peak_loop env threshold (Suc i) bs of
               (out, err) \<Rightarrow>
                 (\<lparr>pk_bin = b, pk_p_score = ps, pk_q_score = qs, pk_pval = pv, pk_pval_adj = pa'\<rparr> # out, err))
          else peak_loop env threshold (Suc i) bs)"

fun track_loop :: "locals \<Rightarrow> nat \<Rightarrow> bin list \<Rightarrow> (bin \<times> npfloat) list \<times> py_error option" where
  "track_loop env i [] = ([], None)"
| "track_loop env i (b # bs) =
     (case load (p_score env) i of
        Inl e \<Rightarrow> ([], Some e)
      | Inr ps \<Rightarrow>
          (case track_loop env (Suc i) bs of (out, err) \<Rightarrow> ((b, fabs ps) # out, err)))"

text \<open>
  The output files of a run; None is a file the run never opened.  A file opened for
  writing exists from then on, with the lines written before an exception.
\<close>

record files =
  peak_bed :: "peak_row list option"
  pval_bedGraph :: "(bin \<times> npfloat) list option"
  peak_merged_bed :: "peak_rec list option"
  peak_final_bed :: "centered list option"

definition no_files :: files where
  "no_files = \<lparr>peak_bed = None, pval_bedGraph = None, peak_merged_bed = None, peak_final_bed = None\<rparr>"

text \<open>
  The output part of \<^verbatim>\<open>call_peak\<close>, from \<^verbatim>\<open>### output peak\<close> to the end: the peak
  file, \<^verbatim>\<open>del p_score, q_score\<close>, the p-value track, \<^verbatim>\<open>del pval, pval_adj\<close>, the
  merged peaks, and \<^verbatim>\<open>center_peak\<close> with its default window of 500.
\<close>

definition write_outputs :: "external \<Rightarrow> bin list \<Rightarrow> bool list \<Rightarrow> locals \<Rightarrow> npfloat \<Rightarrow>
    cov_rec list \<Rightarrow> files \<times> py_error option" where
  "write_outputs ext bed nz env threshold track =
     (case peak_loop env threshold 0 (compress bed nz) of
        (peak_lines, Some e) \<Rightarrow> (no_files\<lparr>peak_bed := Some peak_lines\<rparr>, Some e)
      | (peak_lines, None) \<Rightarrow>
          (let env1 = env\<lparr>p_score := None, q_score := None\<rparr> in
           case track_loop env1 0 (compress bed nz) of
             (track_lines, Some e) \<Rightarrow>
               (no_files\<lparr>peak_bed := Some peak_lines, pval_bedGraph := Some track_lines\<rparr>, Some e)
           | (track_lines, None) \<Rightarrow>
               (let merged = bedtools_merge ext peak_lines in
                case center_peak (intersect ext) merged track 500 of
                  (final, warnings, err) \<Rightarrow>
                    (\<lparr>peak_bed = Some peak_lines, pval_bedGraph = Some track_lines,
                      peak_merged_bed = Some merged, peak_final_bed = Some final\<rparr>, err))))"

text \<open>
  \<^verbatim>\<open>call_peak\<close>: the loaded bin file, count file, covariate file and coverage track,
  the threshold and \<^verbatim>\<open>minInputQuantile\<close>.
\<close>

definition call_peak :: "external \<Rightarrow> special \<Rightarrow> bin list \<Rightarrow> bct_row list \<Rightarrow> npfloat list list \<Rightarrow>
    cov_rec list \<Rightarrow> npfloat \<Rightarrow> npfloat \<Rightarrow> files \<times> py_error option" where
  "call_peak ext sp bed bct cov track threshold minInputQuantile =
     (case merge_data bct cov of
        Inl e \<Rightarrow> (no_files, Some e)
      | Inr mat \<Rightarrow>
          (let minInput = np_quantile ext (positive_exposures mat) minInputQuantile;
               nz = nonZeroInput mat minInput
           in case nonSliding (length mat) bed of
                Inl e \<Rightarrow> (no_files, Some e)
              | Inr ns \<Rightarrow>
                  (case significance ext sp (training_rows mat nz ns) (prediction_rows mat nz) of
                     Inl e \<Rightarrow> (no_files, Some e)
                   | Inr pv \<Rightarrow>
                       (let pa = fdr_bh ext pv;
                            env = \<lparr>p_score = Some (map (\<lambda>x. fneg (np_log10 ext x)) pv),
                                   q_score = Some (map (\<lambda>x. fneg (np_log10 ext x)) pa),
                                   pval = Some pv, pval_adj = Some pa\<rparr>
                        in write_outputs ext bed nz env threshold track))))"

section \<open>The dispersion estimator as the specification words it\<close>

text \<open>
  The specification's \<open>information(\<theta>)\<close>, on a float64 \<open>\<theta>\<close>:
  \<open>\<Sum> w (- trigamma(\<theta> + y) + trigamma(\<theta>) - 1/\<theta> + 2/(\<theta> + \<mu>) - (y + \<theta>)/(\<theta> + \<mu>)\<^sup>2)\<close>.
\<close>

definition information :: "special \<Rightarrow> npfloat \<Rightarrow> npfloat list \<Rightarrow> npfloat list \<Rightarrow> int list \<Rightarrow> npfloat" where
  "information sp th mu y w =
     py_sum (map (\<lambda>(w, y, m).
        fmul (Fin (of_int w))
          (fsub (fadd (fsub (fadd (fneg (trigamma sp (fadd th y))) (trigamma sp th)) (fdiv (Fin 1) th))
                      (fdiv (Fin 2) (fadd th m)))
                (fdiv (fadd y th) (fsquare (fadd th m))))) (zip w (zip y mu)))"

text \<open>
  The specification's starting point \<open>n / \<Sum> (y/\<mu> - 1)\<^sup>2\<close> (unit weights), the update
  magnitude \<open>score(|\<theta>|) / information(|\<theta>|)\<close> and the update
  \<open>\<theta> \<leftarrow> |\<theta>| + score(|\<theta>|) / information(|\<theta>|)\<close>.
\<close>

definition moment_start :: "npfloat list \<Rightarrow> npfloat list \<Rightarrow> npfloat" where
  "moment_start y mu =
     fdiv (Fin (of_nat (length y)))
       (py_sum (map (\<lambda>(y, m). fsquare (fsub (fdiv y m) (Fin 1))) (zip y mu)))"

definition newton_delta :: "special \<Rightarrow> npfloat list \<Rightarrow> npfloat list \<Rightarrow> int list \<Rightarrow> npfloat \<Rightarrow> npfloat" where
  "newton_delta sp mu y w t =
     fdiv (score sp (NpFloat (fabs t)) mu y w) (information sp (fabs t) mu y w)"

definition newton_update :: "special \<Rightarrow> npfloat list \<Rightarrow> npfloat list \<Rightarrow> int list \<Rightarrow> npfloat \<Rightarrow> npfloat" where
  "newton_update sp mu y w t = fadd (fabs t) (newton_delta sp mu y w t)"

text \<open>
  Stand-ins for the three library functions, for running the estimator on concrete
  numbers: the theorems about \<^const>\<open>theta\<close> hold for every choice of them.
\<close>

definition stand_in :: special where
  "stand_in = \<lparr>digamma = (\<lambda>x. Fin 0), polygamma = (\<lambda>n x. Fin 0), np_log = (\<lambda>x. Fin 0)\<rparr>"

section \<open>The non-sliding bins as the specification words them\<close>

text \<open>
  A bin is non-sliding when it is the first bin seen on its chromosome, or when its start
  is at or after the end of the previously seen non-sliding bin on the same chromosome.
  \<open>spec_classify\<close> reads the bins in file order; \<open>seen\<close> holds the bins read so
  far with their classification, the latest first.
\<close>

fun spec_classify :: "(bin \<times> bool) list \<Rightarrow> bin list \<Rightarrow> bool list" where
  "spec_classify seen [] = []"
| "spec_classify seen (b # bs) =
     (let first_on_chrom = list_all (\<lambda>(b', f'). chrom b' \<noteq> chrom b) seen;
          f = (first_on_chrom \<or>
               (case find (\<lambda>(b', f'). f' \<and> chrom b' = chrom b) seen of
                  None \<Rightarrow> False
                | Some (b', f') \<Rightarrow> bend b' \<le> bstart b))
      in f # spec_classify ((b, f) # seen) bs)"

definition spec_nonSliding :: "bin list \<Rightarrow> bool list" where
  "spec_nonSliding bed = spec_classify [] bed"

text \<open>
  The chromosomes of a bin file are grouped when the bins of one chromosome are
  consecutive, as in a file sorted by chromosome and coordinate.
\<close>

definition chrom_grouped :: "bin list \<Rightarrow> bool" where
  "chrom_grouped bed = distinct (remdups_adj (map chrom bed))"

text \<open>
  What the loop variables \<^verbatim>\<open>lastchr\<close> and \<^verbatim>\<open>lastbin\<close> hold after the bins in
  \<open>seen\<close>: the chromosome of the latest bin, and the end of the latest non-sliding bin on
  that chromosome.
\<close>

definition state_ok :: "(bin \<times> bool) list \<Rightarrow> string \<Rightarrow> int \<Rightarrow> bool" where
  "state_ok seen lc lb =
     (case seen of
        [] \<Rightarrow> lc = '''' \<and> lb = 0
      | (b0, f0) # _ \<Rightarrow> lc = chrom b0 \<and> lc \<noteq> '''' \<and>
          (\<exists>b1. find (\<lambda>(b', f'). f' \<and> chrom b' = lc) seen = Some (b1, True) \<and> bend b1 = lb))"


text \<open>A bin file with sliding windows of length 100 and step 50 on two chromosomes.\<close>

definition example_bed :: "bin list" where
  "example_bed =
     [\<lparr>chrom = ''chr1'', bstart = 0, bend = 100, extra = []\<rparr>,
      \<lparr>chrom = ''chr1'', bstart = 50, bend = 150, extra = []\<rparr>,
      \<lparr>chrom = ''chr1'', bstart = 100, bend = 200, extra = []\<rparr>,
      \<lparr>chrom = ''chr2'', bstart = 0, bend = 100, extra = []\<rparr>,
      \<lparr>chrom = ''chr2'', bstart = 50, bend = 150, extra = []\<rparr>]"

section \<open>Auxiliary notions and concrete inputs for the centering step\<close>

text \<open>A coverage dictionary none of whose entries is an empty list.\<close>

definition no_empty_entry :: "coverage_dict \<Rightarrow> bool" where
  "no_empty_entry cd = (\<forall>k. cd k \<noteq> Some [])"

text \<open>
  The peak of the specification's scenario, \<^verbatim>\<open>chr1 100 700\<close>, and a coverage track
  with one record of depth 10 that spans it, \<^verbatim>\<open>chr1 0 1000 10\<close>.
\<close>

definition flat_peak :: peak_rec where
  "flat_peak = \<lparr>p_chr = ''chr1'', p_start = 100, p_end = 700,
                p_other = [''12.500'', ''9.250'', ''3.16228e-13'', ''5.62341e-10'']\<rparr>"

definition flat_track :: "cov_rec list" where
  "flat_track = [\<lparr>c_chr = ''chr1'', c_start = 0, c_end = 1000, c_depth = 10\<rparr>]"

text \<open>
  Three short peaks and a coverage track for runs with a window of 3: the first peak is
  covered by two records, the second by none, the third is shorter than the window.
\<close>

definition small_peaks :: "peak_rec list" where
  "small_peaks =
     [\<lparr>p_chr = ''chr1'', p_start = 10, p_end = 15, p_other = []\<rparr>,
      \<lparr>p_chr = ''chr1'', p_start = 30, p_end = 35, p_other = []\<rparr>,
      \<lparr>p_chr = ''chr1'', p_start = 50, p_end = 52, p_other = []\<rparr>]"

definition small_track :: "cov_rec list" where
  "small_track =
     [\<lparr>c_chr = ''chr1'', c_start = 10, c_end = 13, c_depth = 4\<rparr>,
      \<lparr>c_chr = ''chr1'', c_start = 13, c_end = 15, c_depth = 7\<rparr>,
      \<lparr>c_chr = ''chr1'', c_start = 50, c_end = 52, c_depth = 2\<rparr>]"

section \<open>Auxiliary notions and concrete inputs for the pipeline\<close>

text \<open>
  A count file and a covariate file for the five bins of \<open>example_bed\<close>, the matrix
  \<^verbatim>\<open>mat\<close> they merge into, and stand-ins for the library functions, for running the
  pipeline on concrete numbers: the theorems about the pipeline hold for every choice of
  them.
\<close>

definition example_bct :: "bct_row list" where
  "example_bct =
     [\<lparr>input_ct = Fin 5, output_ct = Fin 0, norm_input = Fin 6\<rparr>,
      \<lparr>input_ct = Fin 4, output_ct = Fin 1, norm_input = Fin 5\<rparr>,
      \<lparr>input_ct = Fin 3, output_ct = Fin 2, norm_input = Fin 4\<rparr>,
      \<lparr>input_ct = Fin 0, output_ct = Fin 3, norm_input = Fin 0\<rparr>,
      \<lparr>input_ct = Fin 2, output_ct = Fin 4, norm_input = Fin 3\<rparr>]"

definition example_cov :: "npfloat list list" where
  "example_cov = [[Fin 1], [Fin 1], [Fin 1], [Fin 1], [Fin 1]]"

definition example_mat :: "mrow list" where
  "example_mat =
     [\<lparr>response = Fin 0, exposure = Fin 6, covariates = [Fin 1]\<rparr>,
      \<lparr>response = Fin 1, exposure = Fin 5, covariates = [Fin 1]\<rparr>,
      \<lparr>response = Fin 2, exposure = Fin 4, covariates = [Fin 1]\<rparr>,
      \<lparr>response = Fin 3, exposure = Fin 0, covariates = [Fin 1]\<rparr>,
      \<lparr>response = Fin 4, exposure = Fin 3, covariates = [Fin 1]\<rparr>]"

definition stand_in_ext :: external where
  "stand_in_ext =
     \<lparr>np_quantile = (\<lambda>xs q. Fin 0),
      poisson_glm = (\<lambda>rows. Inr \<lparr>fit_mu = map (\<lambda>r. Fin 1) rows, fit_params = []\<rparr>),
      negbin_glm = (\<lambda>alpha rows start. Inr \<lparr>fit_mu = map (\<lambda>r. Fin 1) rows, fit_params = []\<rparr>),
      glm_predict = (\<lambda>model rows. map (\<lambda>r. Fin 1) rows),
      nbinom_cdf = (\<lambda>k n p. Fin (1 / 2)),
      fdr_bh = (\<lambda>ps. ps),
      np_log10 = (\<lambda>x. Fin 0),
      bedtools_merge = (\<lambda>rows. []),
      intersect = bedtools_intersect\<rparr>"

text \<open>
  The smallest element of a non-empty array, which is what \<^verbatim>\<open>np.quantile\<close> returns
  for the quantile 0, the default of \<^verbatim>\<open>minInputQuantile\<close>; and the stand-ins with this
  for \<^verbatim>\<open>np.quantile\<close>.
\<close>

definition np_min :: "npfloat list \<Rightarrow> npfloat" where
  "np_min xs = foldl (\<lambda>a b. if flt b a then b else a) (hd xs) (tl xs)"

definition quantile0_ext :: external where
  "quantile0_ext = stand_in_ext\<lparr>np_quantile := (\<lambda>xs q. np_min xs)\<rparr>"

text \<open>
  The mean \<open>n (1 - p) / p\<close> of the negative binomial distribution with parameters \<open>n\<close>
  and \<open>p\<close>, in the parameterisation of \<^verbatim>\<open>scipy.stats.nbinom\<close>.
\<close>

definition nb_mean :: "npfloat \<Rightarrow> npfloat \<Rightarrow> npfloat" where
  "nb_mean n p = fdiv (fmul n (fsub (Fin 1) p)) p"

text \<open>
  The lines of the peak file in the run on the example files with the stand-ins (all four
  covered bins pass a threshold of 1).
\<close>

definition example_peak_lines :: "peak_row list" where
  "example_peak_lines =
     map (\<lambda>b. \<lparr>pk_bin = b, pk_p_score = Fin 0, pk_q_score = Fin 0,
               pk_pval = Fin (1 / 2), pk_pval_adj = Fin (1 / 2)\<rparr>)
       [example_bed ! 0, example_bed ! 1, example_bed ! 2, example_bed ! 4]"

text \<open>
  The coverage the track gives at a position of a chromosome, and the coverage sum of the
  window of width \<open>w\<close> that starts at \<open>a\<close>: what the specification's center phase sums.
\<close>

definition coverage_at :: "cov_rec list \<Rightarrow> string \<Rightarrow> int \<Rightarrow> int" where
  "coverage_at track chr pos =
     sum_list (map c_depth (filter (\<lambda>c. c_chr c = chr \<and> c_start c \<le> pos \<and> pos < c_end c) track))"

definition track_window_sum :: "cov_rec list \<Rightarrow> string \<Rightarrow> int \<Rightarrow> int \<Rightarrow> int" where
  "track_window_sum track chr a w = sum_list (map (coverage_at track chr) [a..a + w - 1])"

section \<open>Properties of the dispersion estimator\<close>

lemma fadd_commute: "fadd a b = fadd b a"
  by (cases a; cases b) simp_all

lemma info_NpFloat: "info sp (NpFloat t) mu y w = Inr (information sp t mu y w)"
  by (simp add: info_def one_over_def information_def info_term_def to_float_def fadd_commute)

lemma fmul_one: "fmul (Fin 1) a = a"
  by (cases a) (simp_all add: inf_of_sign_def)

lemma theta_init_unit:
  "length y = length mu \<Longrightarrow> theta_init y mu (replicate (length y) 1) = moment_start y mu"
  by (simp add: theta_init_def moment_start_def zip_replicate1 sum_list_replicate
      comp_def case_prod_unfold fmul_one)

lemma newton_trace:
  "\<exists>m. newton sp mu y w it t0 de = Inr ((newton_update sp mu y w ^^ m) t0, it + m)
      \<and> (m = 0 \<longleftrightarrow> \<not> (it < limit \<and> fgt (fabs de) eps))
      \<and> (0 < m \<longrightarrow> it + m \<le> limit)
      \<and> (\<forall>j. j + 1 < m \<longrightarrow> fgt (fabs (newton_delta sp mu y w ((newton_update sp mu y w ^^ j) t0))) eps)
      \<and> (0 < m \<and> it + m < limit \<longrightarrow>
            \<not> fgt (fabs (newton_delta sp mu y w ((newton_update sp mu y w ^^ (m - 1)) t0))) eps)"
proof (induction sp mu y w it t0 de rule: newton.induct)
  case (1 sp mu y w it t0 de)
  let ?upd = "newton_update sp mu y w"
  let ?dl = "newton_delta sp mu y w"
  show ?case
  proof (cases "it < limit \<and> fgt (fabs de) eps")
    case False
    then have "newton sp mu y w it t0 de = Inr (t0, it)"
      by (subst newton.simps) auto
    with False show ?thesis
      by (intro exI[of _ 0]) simp
  next
    case True
    have upd: "?upd t0 = fadd (fabs t0)
        (fdiv (score sp (NpFloat (fabs t0)) mu y w) (information sp (fabs t0) mu y w))"
      by (simp add: newton_update_def newton_delta_def)
    have dl: "?dl t0 = fdiv (score sp (NpFloat (fabs t0)) mu y w) (information sp (fabs t0) mu y w)"
      by (simp add: newton_delta_def)
    have step: "newton sp mu y w it t0 de = newton sp mu y w (it + 1) (?upd t0) (?dl t0)"
      using True
      by (subst newton.simps) (simp add: info_NpFloat upd dl Let_def)
    have IH: "\<exists>m. newton sp mu y w (it + 1) (?upd t0) (?dl t0) = Inr ((?upd ^^ m) (?upd t0), it + 1 + m)
      \<and> (m = 0 \<longleftrightarrow> \<not> (it + 1 < limit \<and> fgt (fabs (?dl t0)) eps))
      \<and> (0 < m \<longrightarrow> it + 1 + m \<le> limit)
      \<and> (\<forall>j. j + 1 < m \<longrightarrow> fgt (fabs (?dl ((?upd ^^ j) (?upd t0)))) eps)
      \<and> (0 < m \<and> it + 1 + m < limit \<longrightarrow> \<not> fgt (fabs (?dl ((?upd ^^ (m - 1)) (?upd t0)))) eps)"
      unfolding upd dl by (rule "1.IH"[OF True refl info_NpFloat refl])
    then obtain m where m:
      "newton sp mu y w (it + 1) (?upd t0) (?dl t0) = Inr ((?upd ^^ m) (?upd t0), it + 1 + m)"
      "m = 0 \<longleftrightarrow> \<not> (it + 1 < limit \<and> fgt (fabs (?dl t0)) eps)"
      "0 < m \<longrightarrow> it + 1 + m \<le> limit"
      "\<forall>j. j + 1 < m \<longrightarrow> fgt (fabs (?dl ((?upd ^^ j) (?upd t0)))) eps"
      "0 < m \<and> it + 1 + m < limit \<longrightarrow> \<not> fgt (fabs (?dl ((?upd ^^ (m - 1)) (?upd t0)))) eps"
      by blast
    have a: "newton sp mu y w it t0 de = Inr ((?upd ^^ Suc m) t0, it + Suc m)"
      using step m(1) by (simp add: funpow_swap1)
    have b: "it + Suc m \<le> limit"
      using True m(2,3) by (cases "m = 0") auto
    have c: "fgt (fabs (?dl ((?upd ^^ j) t0))) eps" if "j + 1 < Suc m" for j
    proof (cases j)
      case 0
      with that m(2) show ?thesis by (cases "m = 0") auto
    next
      case (Suc j')
      with that m(4) show ?thesis by (simp add: funpow_swap1)
    qed
    have d: "\<not> fgt (fabs (?dl ((?upd ^^ (Suc m - 1)) t0))) eps" if "it + Suc m < limit"
    proof (cases "m = 0")
      case True
      with that m(2) show ?thesis by auto
    next
      case False
      then obtain m' where "m = Suc m'" by (cases m) auto
      with that m(5) show ?thesis by (simp add: funpow_swap1)
    qed
    show ?thesis
      using a b c d True by (intro exI[of _ "Suc m"]) (simp del: funpow.simps)
  qed
qed

lemma newton_stand_in_cycle:
  "newton stand_in [Fin 1] [Fin 0] [1] 0 (theta_init [Fin 0] [Fin 1] [1]) (Fin 1) = Inr (Fin (- 1), 20)"
  by (simp add: newton.simps theta_init_def py_sum_def fsquare_def fsub_def limit_def eps_def fgt_def
      info_def one_over_def score_def score_term_def info_term_def to_float_def stand_in_def trigamma_def)

lemma theta_stand_in_converged:
  "theta stand_in [Fin 0, Fin 2] [Fin 1, Fin 1] = ([], Inr (NpFloat (Fin 1), NaN))"
  by (simp add: theta_def newton.simps theta_init_def py_sum_def fsquare_def fsub_def limit_def eps_def fgt_def
      info_def one_over_def score_def score_term_def info_term_def to_float_def stand_in_def trigamma_def)

text \<open>
  C2.  When the Newton iteration ends below zero, \<^verbatim>\<open>theta\<close> sets the estimate to the
  Python \<^verbatim>\<open>int\<close> 0 and prints the warning, and then the standard error
  \<^verbatim>\<open>np.sqrt(1 / info(t0, ...))\<close> evaluates \<^verbatim>\<open>1 / th\<close> with \<^verbatim>\<open>th = 0\<close>: the
  call ends in \<^verbatim>\<open>ZeroDivisionError\<close> and returns no pair.
\<close>

theorem theta_truncation_raises:
  assumes "length y = length mu" and "y \<noteq> []"
    and "newton sp mu y (replicate (length y) 1) 0
           (theta_init y mu (replicate (length y) 1)) (Fin 1) = Inr (t0, it)"
    and "flt t0 (Fin 0)"
  shows "snd (theta sp y mu) = Inl ZeroDivisionError
       \<and> ''warning: estimate truncated at zero'' \<in> set (fst (theta sp y mu))"
  using assms by (simp add: theta_def info_def one_over_def Let_def)

theorem theta_truncation_raises_witness:
  "snd (theta stand_in [Fin 0] [Fin 1]) = Inl ZeroDivisionError
     \<and> ''warning: estimate truncated at zero'' \<in> set (fst (theta stand_in [Fin 0] [Fin 1]))"
  using theta_truncation_raises[of "[Fin 0]" "[Fin 1]" stand_in "Fin (- 1)" 20]
    newton_stand_in_cycle
  by simp

text \<open>
  C6.  With unit weights \<^verbatim>\<open>theta\<close> starts from \<open>n / \<Sum> (y/\<mu> - 1)\<^sup>2\<close> and runs the
  update \<open>t \<leftarrow> |t| + score(|t|) / info(|t|)\<close> some \<open>k\<close> times, \<open>1 \<le> k \<le> 20\<close>: every
  update before the last had a magnitude above \<open>eps\<close>, and when \<open>k < 20\<close> the last one
  did not.  The value \<open>t\<close> after the last update is the estimate \<^verbatim>\<open>theta\<close> returns,
  unless it is below zero (the sign clamp).
\<close>

theorem theta_newton_iteration:
  assumes "length y = length mu" and "y \<noteq> []"
  shows "\<exists>k t. 1 \<le> k \<and> k \<le> 20
      \<and> theta_init y mu (replicate (length y) 1) = moment_start y mu
      \<and> newton sp mu y (replicate (length y) 1) 0 (moment_start y mu) (Fin 1) = Inr (t, k)
      \<and> t = (newton_update sp mu y (replicate (length y) 1) ^^ k) (moment_start y mu)
      \<and> (\<forall>j. j + 1 < k \<longrightarrow>
            fgt (fabs (newton_delta sp mu y (replicate (length y) 1)
                  ((newton_update sp mu y (replicate (length y) 1) ^^ j) (moment_start y mu)))) eps)
      \<and> (k < 20 \<longrightarrow>
            \<not> fgt (fabs (newton_delta sp mu y (replicate (length y) 1)
                  ((newton_update sp mu y (replicate (length y) 1) ^^ (k - 1)) (moment_start y mu)))) eps)
      \<and> (\<not> flt t (Fin 0) \<longrightarrow>
            snd (theta sp y mu) =
              Inr (NpFloat t, fsqrt (fdiv (Fin 1) (information sp t mu y (replicate (length y) 1)))))"
proof -
  let ?w = "replicate (length y) (1::int)"
  let ?init = "moment_start y mu"
  from newton_trace[of sp mu y ?w 0 ?init "Fin 1"]
  obtain m where m:
    "newton sp mu y ?w 0 ?init (Fin 1) = Inr ((newton_update sp mu y ?w ^^ m) ?init, 0 + m)"
    "m = 0 \<longleftrightarrow> \<not> (0 < limit \<and> fgt (fabs (Fin 1)) eps)"
    "0 < m \<longrightarrow> 0 + m \<le> limit"
    "\<forall>j. j + 1 < m \<longrightarrow> fgt (fabs (newton_delta sp mu y ?w ((newton_update sp mu y ?w ^^ j) ?init))) eps"
    "0 < m \<and> 0 + m < limit \<longrightarrow>
       \<not> fgt (fabs (newton_delta sp mu y ?w ((newton_update sp mu y ?w ^^ (m - 1)) ?init))) eps"
    by blast
  have pos: "0 < m"
    using m(2) by (simp add: limit_def eps_def fgt_def)
  have le: "m \<le> 20"
    using m(3) pos by (simp add: limit_def)
  have ret: "snd (theta sp y mu) =
      Inr (NpFloat ((newton_update sp mu y ?w ^^ m) ?init),
           fsqrt (fdiv (Fin 1) (information sp ((newton_update sp mu y ?w ^^ m) ?init) mu y ?w)))"
    if "\<not> flt ((newton_update sp mu y ?w ^^ m) ?init) (Fin 0)"
  proof -
    have "theta_init y mu ?w = ?init"
      using assms(1) by (rule theta_init_unit)
    with m(1) have "newton sp mu y ?w 0 (theta_init y mu ?w) (Fin 1)
        = Inr ((newton_update sp mu y ?w ^^ m) ?init, m)"
      by simp
    with that assms show ?thesis
      by (simp add: theta_def info_NpFloat Let_def)
  qed
  have ti: "theta_init y mu ?w = ?init"
    using assms(1) by (rule theta_init_unit)
  show ?thesis
    using m(1,4,5) pos le ret ti
    by (intro exI[of _ m] exI[of _ "(newton_update sp mu y ?w ^^ m) ?init"]) (simp add: limit_def)
qed

theorem theta_newton_iteration_witness:
  "snd (theta stand_in [Fin 0, Fin 2] [Fin 1, Fin 1]) = Inr (NpFloat (Fin 1), NaN)"
  using theta_newton_iteration[of "[Fin 0, Fin 2]" "[Fin 1, Fin 1]" stand_in]
  by (simp add: theta_stand_in_converged)

section \<open>Properties of the filters\<close>

lemma grouped_new_chrom:
  assumes "distinct (remdups_adj (xs @ [a] @ b # ys))" and "a \<noteq> b"
  shows "b \<notin> set (xs @ [a])"
proof -
  have "remdups_adj ((xs @ [a]) @ (b # ys)) = remdups_adj (xs @ [a]) @ remdups_adj (b # ys)"
    using assms(2) by (intro remdups_adj_append') simp
  with assms(1) have "set (remdups_adj (xs @ [a])) \<inter> set (remdups_adj (b # ys)) = {}"
    by simp
  then show ?thesis by auto
qed

lemma loop_spec:
  assumes "distinct (remdups_adj (map chrom (rev (map fst seen) @ bs)))"
    and "\<forall>b\<in>set bs. chrom b \<noteq> ''''"
    and "state_ok seen lc lb"
    and "length bs \<le> n"
  shows "nonSliding_loop (xs @ replicate n False) (length xs) lc lb bs
       = Inr (xs @ spec_classify seen bs @ replicate (n - length bs) False)"
  using assms
proof (induction bs arbitrary: seen lc lb xs n)
  case Nil
  then show ?case by simp
next
  case (Cons b bs)
  from Cons.prems(4) obtain n' where n: "n = Suc n'" and n': "length bs \<le> n'"
    by (cases n) auto
  have ne: "chrom b \<noteq> ''''" using Cons.prems(2) by simp
  have rest: "\<forall>b\<in>set bs. chrom b \<noteq> ''''" using Cons.prems(2) by simp
  have grp: "distinct (remdups_adj (map chrom (rev (map fst ((b, f) # seen)) @ bs)))" for f
    using Cons.prems(1) by simp
  show ?case
  proof (cases "chrom b \<noteq> lc")
    case True
    have first: "list_all (\<lambda>(b', f'). chrom b' \<noteq> chrom b) seen"
    proof (cases seen)
      case Nil
      then show ?thesis by simp
    next
      case (Cons s seen')
      obtain b0 f0 where s: "s = (b0, f0)" by (cases s)
      have lc: "lc = chrom b0" using Cons.prems(3) Cons s by (simp add: state_ok_def)
      have "distinct (remdups_adj (map chrom (rev (map fst seen')) @ [chrom b0] @ chrom b # map chrom bs))"
        using \<open>distinct (remdups_adj (map chrom (rev (map fst seen) @ b # bs)))\<close> Cons s by simp
      then have "chrom b \<notin> set (map chrom (rev (map fst seen')) @ [chrom b0])"
        using True lc by (intro grouped_new_chrom) auto
      moreover have "chrom (fst x) \<in> set (map chrom (rev (map fst seen')))" if "x \<in> set seen'" for x
        using that by force
      ultimately have "chrom b \<noteq> chrom b0" and "\<forall>x\<in>set seen'. chrom (fst x) \<noteq> chrom b"
        by fastforce+
      then show ?thesis
        using Cons s by (auto simp: list_all_iff)
    qed
    have ok: "state_ok ((b, True) # seen) (chrom b) (bend b)"
      using ne by (simp add: state_ok_def)
    have "nonSliding_loop (xs @ replicate n False) (length xs) lc lb (b # bs)
        = nonSliding_loop ((xs @ [True]) @ replicate n' False) (length (xs @ [True])) (chrom b) (bend b) bs"
      using True n by (simp add: list_update_append)
    also have "\<dots> = Inr ((xs @ [True]) @ spec_classify ((b, True) # seen) bs @ replicate (n' - length bs) False)"
      by (rule Cons.IH[OF grp rest ok n'])
    finally show ?thesis
      using first n by (simp add: Let_def)
  next
    case False
    then have lc: "lc = chrom b" by simp
    obtain b0 f0 seen' where seen: "seen = (b0, f0) # seen'"
      using Cons.prems(3) ne lc by (cases seen) (auto simp: state_ok_def)
    obtain b1 where b1: "find (\<lambda>(b', f'). f' \<and> chrom b' = lc) seen = Some (b1, True)" "bend b1 = lb"
      and b0: "lc = chrom b0"
      using Cons.prems(3) seen by (auto simp: state_ok_def)
    have notfirst: "\<not> list_all (\<lambda>(b', f'). chrom b' \<noteq> chrom b) seen"
      using seen b0 lc by simp
    have f: "(case find (\<lambda>(b', f'). f' \<and> chrom b' = chrom b) seen of
                None \<Rightarrow> False | Some (b', f') \<Rightarrow> bend b' \<le> bstart b) = (lb \<le> bstart b)"
      using b1 lc by simp
    show ?thesis
    proof (cases "lb \<le> bstart b")
      case True
      have ok: "state_ok ((b, True) # seen) lc (bend b)"
        using ne lc by (simp add: state_ok_def)
      have "nonSliding_loop (xs @ replicate n False) (length xs) lc lb (b # bs)
          = nonSliding_loop ((xs @ [True]) @ replicate n' False) (length (xs @ [True])) lc (bend b) bs"
        using True lc n by (simp add: list_update_append)
      also have "\<dots> = Inr ((xs @ [True]) @ spec_classify ((b, True) # seen) bs @ replicate (n' - length bs) False)"
        by (rule Cons.IH[OF grp rest ok n'])
      finally show ?thesis
        using notfirst f True n by (simp add: Let_def)
    next
      case False
      have ok: "state_ok ((b, False) # seen) lc lb"
        using ne lc b1 by (simp add: state_ok_def)
      have "nonSliding_loop (xs @ replicate n False) (length xs) lc lb (b # bs)
          = nonSliding_loop ((xs @ [False]) @ replicate n' False) (length (xs @ [False])) lc lb bs"
        using False lc n by (simp add: replicate_app_Cons_same)
      also have "\<dots> = Inr ((xs @ [False]) @ spec_classify ((b, False) # seen) bs @ replicate (n' - length bs) False)"
        by (rule Cons.IH[OF grp rest ok n'])
      finally show ?thesis
        using notfirst f False n by (simp add: Let_def)
    qed
  qed
qed

text \<open>
  C7.  On a bin file whose chromosomes are grouped (and named), the array
  \<^verbatim>\<open>nonSliding\<close> that \<^verbatim>\<open>call_peak\<close> fills marks a bin exactly when it is the first
  bin seen on its chromosome or starts at or after the end of the previously seen
  non-sliding bin on the same chromosome; every other bin stays False.
\<close>

theorem nonSliding_classification:
  assumes "chrom_grouped bed" and "\<forall>b\<in>set bed. chrom b \<noteq> ''''"
  shows "nonSliding (length bed) bed = Inr (spec_nonSliding bed)"
  using loop_spec[of "[]" bed "''''" 0 "length bed" "[]"] assms
  by (simp add: nonSliding_def spec_nonSliding_def chrom_grouped_def state_ok_def)

theorem nonSliding_classification_witness:
  "nonSliding (length example_bed) example_bed = Inr [True, False, True, True, False]
   \<and> spec_nonSliding example_bed = [True, False, True, True, False]"
  using nonSliding_classification[of example_bed]
  by (simp add: example_bed_def chrom_grouped_def spec_nonSliding_def)

section \<open>Properties of the centering step\<close>

lemma add_coverage_None:
  "add_coverage m pc k = None \<longleftrightarrow> m k = None \<and> k \<noteq> pid_of (fst pc)"
  by (cases pc) (simp add: add_coverage_def split: option.splits)

lemma foldl_add_coverage_None:
  "foldl add_coverage m pcs k = None \<longleftrightarrow> m k = None \<and> k \<notin> pid_of ` fst ` set pcs"
  by (induction pcs arbitrary: m) (auto simp: add_coverage_None)

lemma build_coverage_None:
  "build_coverage pcs k = None \<longleftrightarrow> k \<notin> pid_of ` fst ` set pcs"
  by (simp add: build_coverage_def foldl_add_coverage_None)

lemma no_empty_entryD: "no_empty_entry cd \<Longrightarrow> cd k = Some l \<Longrightarrow> l \<noteq> []"
  unfolding no_empty_entry_def by blast

lemma add_coverage_no_empty:
  "no_empty_entry m \<Longrightarrow> no_empty_entry (add_coverage m pc)"
  by (cases pc) (simp add: no_empty_entry_def add_coverage_def split: option.splits)

lemma foldl_add_coverage_no_empty:
  "no_empty_entry m \<Longrightarrow> no_empty_entry (foldl add_coverage m pcs)"
  by (induction pcs arbitrary: m) (simp_all add: add_coverage_no_empty)

lemma build_coverage_no_empty: "no_empty_entry (build_coverage pcs)"
  unfolding build_coverage_def
  by (rule foldl_add_coverage_no_empty) (simp add: no_empty_entry_def)

lemma center_one_no_warning:
  assumes "no_empty_entry cd" and "center_one W cd p = Inr (ws, ls)"
  shows "ws = []"
proof (cases "cd (pid_of p)")
  case None
  with assms(2) show ?thesis by (simp add: center_one_def)
next
  case (Some cov)
  with assms(1) have "cov \<noteq> []" by (rule no_empty_entryD)
  with Some assms(2) show ?thesis
    by (auto simp: center_one_def Let_def split: if_splits)
qed

lemma center_loop_no_warning:
  "no_empty_entry cd \<Longrightarrow> fst (snd (center_loop W cd ps)) = []"
proof (induction ps)
  case Nil
  then show ?case by simp
next
  case (Cons p ps)
  then show ?case
    by (auto split: sum.splits prod.splits dest: center_one_no_warning)
qed

lemma center_loop_stops:
  "center_one W cd p = Inl e \<Longrightarrow>
   \<exists>e'. center_loop W cd (pre @ p # post)
       = (fst (center_loop W cd pre), fst (snd (center_loop W cd pre)), Some e')
     \<and> (snd (snd (center_loop W cd pre)) = None \<longrightarrow> e' = e)"
proof (induction pre)
  case Nil
  then show ?case by simp
next
  case (Cons q pre)
  then show ?case
    by (cases "center_one W cd q") (auto split: prod.splits)
qed


lemma slice_bound_le: "slice_bound n i \<le> n"
  by (auto simp: slice_bound_def max_def)

lemma slice_assign_replicate:
  "slice_assign (replicate n z) a b v =
     replicate (slice_bound n a) z
     @ replicate (slice_bound n b - slice_bound n a) v
     @ replicate (n - max (slice_bound n a) (slice_bound n b)) z"
proof (rule nth_equalityI)
  show "length (slice_assign (replicate n z) a b v) =
    length (replicate (slice_bound n a) z @ replicate (slice_bound n b - slice_bound n a) v
      @ replicate (n - max (slice_bound n a) (slice_bound n b)) z)"
    using slice_bound_le[of n a] slice_bound_le[of n b]
    by (simp add: slice_assign_def Let_def)
next
  fix i assume "i < length (slice_assign (replicate n z) a b v)"
  then have i: "i < n" by (simp add: slice_assign_def Let_def)
  then show "slice_assign (replicate n z) a b v ! i =
    (replicate (slice_bound n a) z @ replicate (slice_bound n b - slice_bound n a) v
      @ replicate (n - max (slice_bound n a) (slice_bound n b)) z) ! i"
    using slice_bound_le[of n a] slice_bound_le[of n b]
    by (auto simp: slice_assign_def Let_def nth_append)
qed

lemma np_max_Max: "xs \<noteq> [] \<Longrightarrow> np_max xs = Max (set xs)"
proof (cases xs)
  case Nil
  assume "xs \<noteq> []"
  with Nil show ?thesis by simp
next
  case (Cons x xs')
  have "foldl max x xs' = fold max xs' x"
    by (simp add: foldl_conv_fold max.commute)
  then show ?thesis
    using Cons Max.set_eq_fold[of x xs'] by (simp add: np_max_def)
qed

lemma np_max_upt:
  assumes "\<forall>i\<le>n. f i \<le> f n"
  shows "np_max (map f [0..<Suc n]) = f n"
proof -
  have "np_max (map f [0..<Suc n]) = Max (f ` {0..<Suc n})"
    by (subst np_max_Max) (simp_all del: upt_Suc)
  also have "\<dots> = f n"
    using assms by (intro Max_eqI) auto
  finally show ?thesis .
qed

lemma argwhere_eq_upt:
  assumes "\<forall>i<n. f i \<noteq> v" and "f n = v"
  shows "argwhere_eq (map f [0..<Suc n]) v = [n]"
proof -
  have "filter (\<lambda>i. map f [0..<Suc n] ! i = v) [0..<Suc n] = filter (\<lambda>i. f i = v) [0..<Suc n]"
    by (rule filter_cong) (auto simp: nth_append simp del: upt_Suc)
  also have "\<dots> = [n]"
    using assms by (simp add: filter_empty_conv)
  finally show ?thesis
    by (simp add: argwhere_eq_def del: upt_Suc)
qed

lemma flat_mat: "fill_mat 100 600 [(0, 1000, 10)] = replicate 500 0 @ replicate 100 10"
  by (simp add: fill_mat_def slice_assign_replicate slice_bound_def)

lemma flat_window:
  assumes "idx \<le> 100"
  shows "sum_list (slice_get (replicate 500 0 @ replicate 100 10) (int idx) (int idx + 500)) = 10 * int idx"
proof -
  have "slice_get (replicate 500 0 @ replicate 100 10) (int idx) (int idx + 500)
      = replicate (500 - idx) 0 @ replicate idx 10"
    using assms by (auto simp: slice_get_def slice_bound_def Let_def min_def nat_add_distrib)
  then show ?thesis
    by (simp add: sum_list_replicate)
qed

lemma flat_depth:
  "window_sums (replicate 500 0 @ replicate 100 10) 500 101 = map (\<lambda>idx. 10 * int idx) [0..<101]"
  unfolding window_sums_def
  by (rule map_cong) (simp_all add: flat_window)


lemma small_missing:
  "center_peak bedtools_intersect small_peaks small_track 3 = ([(''chr1'', 12, 15, [])], [], Some KeyError)"
  by code_simp

lemma small_short:
  "center_peak bedtools_intersect [small_peaks ! 0, small_peaks ! 2] small_track 3
     = ([(''chr1'', 12, 15, [])], [], Some ValueError)"
  by code_simp

text \<open>
  C3.  A peak with no line in the intersection has no key in the dictionary
  \<^verbatim>\<open>coverage\<close>, so \<^verbatim>\<open>coverage[pid]\<close> raises \<^verbatim>\<open>KeyError\<close> before the test
  \<^verbatim>\<open>len(cov) == 0\<close> is reached: \<^verbatim>\<open>center_peak\<close> ends with an exception, having
  written only what the peaks before it gave and warned about nothing; the peaks after it
  are not processed.  The exception is the \<^verbatim>\<open>KeyError\<close> when the peaks before it were
  centered.
\<close>

theorem center_peak_missing_coverage:
  assumes "pid_of p \<notin> pid_of ` fst ` set (isect (pre @ p # post) track)"
  shows "center_one W (build_coverage (isect (pre @ p # post) track)) p = Inl KeyError
       \<and> (\<exists>e. center_peak isect (pre @ p # post) track W
               = (fst (center_loop W (build_coverage (isect (pre @ p # post) track)) pre), [], Some e)
             \<and> (snd (snd (center_loop W (build_coverage (isect (pre @ p # post) track)) pre)) = None
                  \<longrightarrow> e = KeyError))"
proof -
  let ?cd = "build_coverage (isect (pre @ p # post) track)"
  have one: "center_one W ?cd p = Inl KeyError"
    using assms by (simp add: center_one_def build_coverage_None[symmetric])
  have ne: "no_empty_entry ?cd"
    by (rule build_coverage_no_empty)
  from center_loop_stops[OF one, of pre post] center_loop_no_warning[OF ne, of W pre] one
  show ?thesis
    by (auto simp: center_peak_def)
qed

theorem center_peak_missing_coverage_witness:
  "pid_of (small_peaks ! 1) \<notin> pid_of ` fst ` set (bedtools_intersect small_peaks small_track)
   \<and> center_peak bedtools_intersect small_peaks small_track 3
       = ([(''chr1'', 12, 15, [])], [], Some KeyError)"
proof -
  have h: "pid_of (small_peaks ! 1) \<notin> pid_of ` fst `
      set (bedtools_intersect ([small_peaks ! 0] @ small_peaks ! 1 # [small_peaks ! 2]) small_track)"
    by (simp add: small_peaks_def small_track_def bedtools_intersect_def overlaps_def pid_of_def)
  have e: "[small_peaks ! 0] @ small_peaks ! 1 # [small_peaks ! 2] = small_peaks"
    by (simp add: small_peaks_def)
  from center_peak_missing_coverage[where p = "small_peaks ! 1" and pre = "[small_peaks ! 0]"
      and post = "[small_peaks ! 2]" and isect = bedtools_intersect and track = small_track and W = 3] h
  show ?thesis
    unfolding e by (simp add: small_missing)
qed

lemma flat_track_window:
  assumes "idx \<le> 100"
  shows "track_window_sum flat_track ''chr1'' (100 + int idx) 500 = 5000"
proof -
  have "track_window_sum flat_track ''chr1'' (100 + int idx) 500
      = sum_list (map (\<lambda>pos. 10) [100 + int idx..100 + int idx + 500 - 1])"
    unfolding track_window_sum_def using assms
    by (intro arg_cong[where f = sum_list] map_cong) (auto simp: coverage_at_def flat_track_def)
  also have "\<dots> = 5000"
    by (simp add: sum_list_triv)
  finally show ?thesis .
qed

lemma flat_track_windows:
  "map (\<lambda>idx. track_window_sum flat_track ''chr1'' (100 + int idx) 500) [0..<101] = replicate 101 5000"
proof -
  have "map (\<lambda>idx. track_window_sum flat_track ''chr1'' (100 + int idx) 500) [0..<101]
      = map (\<lambda>idx. 5000) [0..<101]"
    by (rule map_cong) (simp_all add: flat_track_window)
  then show ?thesis
    by (simp add: map_replicate_const)
qed

text \<open>
  C8.  The scenario of the specification, with a coverage record that starts before the
  peak.  On the track every one of the 101 windows of width 500 inside the peak has the
  coverage sum 5000, so all windows tie.  In the code the slice \<^verbatim>\<open>mat[c[0] - start:c[1] - start]\<close> has a negative lower bound, which
  Python counts from the end of the array, so only the last 100 positions of the peak
  receive the depth.  The windows do not tie, and the centered peak is
  \<^verbatim>\<open>chr1 200 700\<close>, not the full span \<^verbatim>\<open>chr1 100 700\<close>.
\<close>

theorem center_peak_flat_coverage:
  "map (\<lambda>idx. track_window_sum flat_track ''chr1'' (100 + int idx) 500) [0..<101] = replicate 101 5000
   \<and> center_peak bedtools_intersect [flat_peak] flat_track 500
     = ([(''chr1'', 200, 700, [''12.500'', ''9.250'', ''3.16228e-13'', ''5.62341e-10''])], [], None)"
proof -
  have cd: "build_coverage (bedtools_intersect [flat_peak] flat_track) (pid_of flat_peak)
      = Some [(0, 1000, 10)]"
    by (simp add: build_coverage_def bedtools_intersect_def overlaps_def add_coverage_def
        flat_peak_def flat_track_def pid_of_def)
  have mx: "np_max (map (\<lambda>idx. 10 * int idx) [0..<101]) = 1000"
    using np_max_upt[of 100 "\<lambda>idx. 10 * int idx"] by (simp del: upt_Suc)
  have aw: "argwhere_eq (map (\<lambda>idx. 10 * int idx) [0..<101]) 1000 = [100]"
    using argwhere_eq_upt[of 100 "\<lambda>idx. 10 * int idx" 1000] by (simp del: upt_Suc)
  have "center_one 500 (build_coverage (bedtools_intersect [flat_peak] flat_track)) flat_peak
      = Inr ([], [(''chr1'', 200, 700, [''12.500'', ''9.250'', ''3.16228e-13'', ''5.62341e-10''])])"
    unfolding center_one_def cd
    by (simp add: flat_peak_def flat_mat flat_depth mx aw Let_def)
  then show ?thesis
    using flat_track_windows by (simp add: center_peak_def)
qed

text \<open>
  C10.  A peak shorter than the window, with at least one line in the intersection:
  \<^verbatim>\<open>center_peak\<close> raises \<^verbatim>\<open>ValueError\<close> at that peak (from \<^verbatim>\<open>np.zeros\<close> of a
  negative size or \<^verbatim>\<open>np.max\<close> of an empty array) and writes no line for it; the file
  holds only what the peaks before it gave.
\<close>

theorem center_peak_short_peak:
  assumes "pid_of p \<in> pid_of ` fst ` set (isect (pre @ p # post) track)"
    and "p_end p - p_start p < W"
  shows "center_one W (build_coverage (isect (pre @ p # post) track)) p = Inl ValueError
       \<and> (\<exists>e. center_peak isect (pre @ p # post) track W
               = (fst (center_loop W (build_coverage (isect (pre @ p # post) track)) pre), [], Some e)
             \<and> (snd (snd (center_loop W (build_coverage (isect (pre @ p # post) track)) pre)) = None
                  \<longrightarrow> e = ValueError))"
proof -
  let ?cd = "build_coverage (isect (pre @ p # post) track)"
  obtain cov where cov: "?cd (pid_of p) = Some cov"
    using assms(1) build_coverage_None[of "isect (pre @ p # post) track" "pid_of p"] by auto
  have ne: "no_empty_entry ?cd"
    by (rule build_coverage_no_empty)
  from ne cov have "cov \<noteq> []" by (rule no_empty_entryD)
  then have one: "center_one W ?cd p = Inl ValueError"
    using cov assms(2) by (auto simp: center_one_def Let_def window_sums_def)
  from center_loop_stops[OF one, of pre post] center_loop_no_warning[OF ne, of W pre] one
  show ?thesis
    by (auto simp: center_peak_def)
qed

theorem center_peak_short_peak_witness:
  "pid_of (small_peaks ! 2) \<in> pid_of ` fst ` set (bedtools_intersect [small_peaks ! 0, small_peaks ! 2] small_track)
   \<and> p_end (small_peaks ! 2) - p_start (small_peaks ! 2) < 3
   \<and> center_peak bedtools_intersect [small_peaks ! 0, small_peaks ! 2] small_track 3
       = ([(''chr1'', 12, 15, [])], [], Some ValueError)"
proof -
  have h: "pid_of (small_peaks ! 2) \<in> pid_of ` fst `
      set (bedtools_intersect ([small_peaks ! 0] @ small_peaks ! 2 # []) small_track)"
    by (simp add: small_peaks_def small_track_def bedtools_intersect_def overlaps_def pid_of_def)
  have l: "p_end (small_peaks ! 2) - p_start (small_peaks ! 2) < 3"
    by (simp add: small_peaks_def)
  from center_peak_short_peak[where p = "small_peaks ! 2" and pre = "[small_peaks ! 0]"
      and post = "[]" and isect = bedtools_intersect and track = small_track and W = 3] h l
  show ?thesis
    by (simp add: small_short)
qed

section \<open>Properties of the row filters\<close>

lemma compress_Nil [simp]: "compress [] sel = []" "compress xs [] = []"
  by (simp_all add: compress_def)

lemma compress_Cons [simp]:
  "compress (x # xs) (b # bs) = (if b then x # compress xs bs else compress xs bs)"
  by (simp add: compress_def)

lemma compress_nths:
  "compress xs sel = nths xs {i. i < length sel \<and> sel ! i}"
proof (induction xs arbitrary: sel)
  case Nil
  then show ?case by simp
next
  case (Cons x xs)
  show ?case
  proof (cases sel)
    case Nil
    then show ?thesis by simp
  next
    case (Cons b bs)
    have "{j. Suc j \<in> {i. i < length (b # bs) \<and> (b # bs) ! i}} = {i. i < length bs \<and> bs ! i}"
      by auto
    then show ?thesis
      using Cons Cons.IH[of bs] by (simp add: nths_Cons)
  qed
qed

lemma compress_zip:
  "length xs = length ys \<Longrightarrow> compress (zip xs ys) sel = zip (compress xs sel) (compress ys sel)"
proof (induction xs ys arbitrary: sel rule: list_induct2)
  case Nil
  then show ?case by simp
next
  case (Cons x xs y ys)
  then show ?case by (cases sel) simp_all
qed

lemma compress_and:
  "length nz = length ns \<Longrightarrow> compress xs (mask_and nz ns) = compress (compress xs nz) (compress ns nz)"
proof (induction nz ns arbitrary: xs rule: list_induct2)
  case Nil
  then show ?case by (simp add: mask_and_def)
next
  case (Cons a nz b ns)
  then show ?case
    by (cases xs) (simp_all add: mask_and_def)
qed

lemma subseq_compress: "subseq (compress xs sel) xs"
proof (induction xs arbitrary: sel)
  case Nil
  then show ?case by simp
next
  case (Cons x xs)
  then show ?case by (cases sel) auto
qed

lemma nonSliding_loop_length:
  "nonSliding_loop arr i lc lb bs = Inr ns \<Longrightarrow> length ns = length arr"
proof (induction bs arbitrary: arr i lc lb)
  case Nil
  then show ?case by simp
next
  case (Cons b bs)
  then show ?case
    by (auto split: if_splits dest!: Cons.IH)
qed

lemma nonSliding_length: "nonSliding n bed = Inr ns \<Longrightarrow> length ns = n"
  by (auto simp: nonSliding_def dest: nonSliding_loop_length)

lemma prediction_rows_nths:
  "prediction_rows mat (nonZeroInput mat m)
     = nths mat {i. i < length mat \<and> fgt (exposure (mat ! i)) m}"
proof -
  have "{i. i < length (nonZeroInput mat m) \<and> nonZeroInput mat m ! i}
      = {i. i < length mat \<and> fgt (exposure (mat ! i)) m}"
    by (auto simp: nonZeroInput_def)
  then show ?thesis
    by (simp add: prediction_rows_def compress_nths)
qed

lemma training_rows_nths:
  assumes "length ns = length mat"
  shows "training_rows mat (nonZeroInput mat m) ns
     = nths mat {i. i < length mat \<and> fgt (exposure (mat ! i)) m \<and> ns ! i}"
proof -
  have "{i. i < length (mask_and (nonZeroInput mat m) ns) \<and> mask_and (nonZeroInput mat m) ns ! i}
      = {i. i < length mat \<and> fgt (exposure (mat ! i)) m \<and> ns ! i}"
    using assms by (auto simp: mask_and_def nonZeroInput_def)
  then show ?thesis
    by (simp add: training_rows_def compress_nths)
qed

lemma kept_bins_nths:
  assumes "length bed = length mat"
  shows "compress bed (nonZeroInput mat m)
     = nths bed {i. i < length mat \<and> fgt (exposure (mat ! i)) m}"
proof -
  have "{i. i < length (nonZeroInput mat m) \<and> nonZeroInput mat m ! i}
      = {i. i < length mat \<and> fgt (exposure (mat ! i)) m}"
    by (auto simp: nonZeroInput_def)
  then show ?thesis
    by (simp add: compress_nths)
qed

lemma call_peak_significance:
  assumes "merge_data bct cov = Inr mat"
    and "nonSliding (length mat) bed = Inr ns"
    and "minInput = np_quantile ext (filter (\<lambda>x. fgt x (Fin 0)) (map exposure mat)) q"
  shows "call_peak ext sp bed bct cov track threshold q =
     (case significance ext sp (training_rows mat (nonZeroInput mat minInput) ns)
             (prediction_rows mat (nonZeroInput mat minInput)) of
        Inl e \<Rightarrow> (no_files, Some e)
      | Inr pv \<Rightarrow>
          write_outputs ext bed (nonZeroInput mat minInput)
            \<lparr>p_score = Some (map (\<lambda>x. fneg (np_log10 ext x)) pv),
             q_score = Some (map (\<lambda>x. fneg (np_log10 ext x)) (fdr_bh ext pv)),
             pval = Some pv, pval_adj = Some (fdr_bh ext pv)\<rparr> threshold track)"
  using assms by (simp add: call_peak_def Let_def positive_exposures_def split: sum.splits)

lemma example_merge: "merge_data example_bct example_cov = Inr example_mat"
  by (simp add: merge_data_def example_bct_def example_cov_def example_mat_def)

lemma example_nz: "nonZeroInput example_mat (Fin 0) = [True, True, True, False, True]"
  by (simp add: nonZeroInput_def example_mat_def fgt_def)

lemma example_ns: "nonSliding (length example_mat) example_bed = Inr [True, False, True, True, False]"
  by (simp add: nonSliding_def example_mat_def example_bed_def)

lemma example_train:
  "training_rows example_mat [True, True, True, False, True] [True, False, True, True, False]
     = [example_mat ! 0, example_mat ! 2]"
  by (simp add: training_rows_def mask_and_def example_mat_def)

lemma example_pred:
  "prediction_rows example_mat [True, True, True, False, True]
      = [example_mat ! 0, example_mat ! 1, example_mat ! 2, example_mat ! 4]"
  by (simp add: prediction_rows_def example_mat_def)

lemma example_min_input:
  "np_quantile quantile0_ext (filter (\<lambda>x. fgt x (Fin 0)) (map exposure example_mat)) (Fin 0) = Fin 3"
  by (simp add: quantile0_ext_def stand_in_ext_def np_min_def example_mat_def fgt_def)

lemma example_nz3: "nonZeroInput example_mat (Fin 3) = [True, True, True, False, False]"
  by (simp add: nonZeroInput_def example_mat_def fgt_def)

lemma example_train3:
  "nths example_mat {i. i < length example_mat \<and> fgt (exposure (example_mat ! i)) (Fin 3)
       \<and> [True, False, True, True, False] ! i}
     = [example_mat ! 0, example_mat ! 2]"
proof -
  have "training_rows example_mat [True, True, True, False, False] [True, False, True, True, False]
      = [example_mat ! 0, example_mat ! 2]"
    by (simp add: training_rows_def mask_and_def example_mat_def)
  moreover have "length [True, False, True, True, False] = length example_mat"
    by (simp add: example_mat_def)
  ultimately show ?thesis
    using training_rows_nths[of "[True, False, True, True, False]" example_mat "Fin 3"]
    by (simp only: example_nz3)
qed

lemma example_pred3:
  "nths example_mat {i. i < length example_mat \<and> fgt (exposure (example_mat ! i)) (Fin 3)}
     = [example_mat ! 0, example_mat ! 1, example_mat ! 2]"
proof -
  have "prediction_rows example_mat [True, True, True, False, False]
      = [example_mat ! 0, example_mat ! 1, example_mat ! 2]"
    by (simp add: prediction_rows_def example_mat_def)
  then show ?thesis
    using prediction_rows_nths[of example_mat "Fin 3"]
    by (simp only: example_nz3)
qed

lemma example_bins3:
  "nths example_bed {i. i < length example_mat \<and> fgt (exposure (example_mat ! i)) (Fin 3)}
     = [example_bed ! 0, example_bed ! 1, example_bed ! 2]"
proof -
  have "compress example_bed [True, True, True, False, False]
      = [example_bed ! 0, example_bed ! 1, example_bed ! 2]"
    by (simp add: example_bed_def)
  moreover have "length example_bed = length example_mat"
    by (simp add: example_bed_def example_mat_def)
  ultimately show ?thesis
    using kept_bins_nths[of example_bed example_mat "Fin 3"]
    by (simp only: example_nz3)
qed

text \<open>
  C9.  In a run of \<^verbatim>\<open>call_peak\<close> whose files load, with \<^verbatim>\<open>minInput\<close> the quantile
  \<^verbatim>\<open>np.quantile(mat[mat[:, 1] > 0, 1], minInputQuantile)\<close> of the positive normalized
  input counts, the Poisson fit, the refit and both \<^verbatim>\<open>theta\<close> calls receive the rows of
  \<^verbatim>\<open>mat\<close> whose exposure is above \<^verbatim>\<open>minInput\<close> and whose bin is non-sliding, in file
  order; the prediction and the p-values receive the rows whose exposure is above
  \<^verbatim>\<open>minInput\<close>, in file order.  The bins that
  \<^verbatim>\<open>compress(bed.readlines(), nonZeroInput)\<close> keeps for the output are the bins of the
  prediction rows and pair up with them as in the files, and the rows of the fit are the
  prediction rows with the non-sliding restriction and nothing else.
\<close>

theorem call_peak_row_subsets:
  assumes "merge_data bct cov = Inr mat"
    and "nonSliding (length mat) bed = Inr ns"
    and "length bed = length mat"
    and "minInput = np_quantile ext (filter (\<lambda>x. fgt x (Fin 0)) (map exposure mat)) q"
    and "train = nths mat {i. i < length mat \<and> fgt (exposure (mat ! i)) minInput \<and> ns ! i}"
    and "pred = nths mat {i. i < length mat \<and> fgt (exposure (mat ! i)) minInput}"
    and "bins = nths bed {i. i < length mat \<and> fgt (exposure (mat ! i)) minInput}"
  shows "call_peak ext sp bed bct cov track threshold q =
          (case poisson_glm ext train of
             Inl e \<Rightarrow> (no_files, Some e)
           | Inr model0 \<Rightarrow>
          (case snd (theta sp (map response train) (fit_mu model0)) of
             Inl e \<Rightarrow> (no_files, Some e)
           | Inr (th0, se0) \<Rightarrow>
          (case nb_alpha th0 of
             Inl e \<Rightarrow> (no_files, Some e)
           | Inr alpha \<Rightarrow>
          (case negbin_glm ext alpha train (fit_params model0) of
             Inl e \<Rightarrow> (no_files, Some e)
           | Inr model \<Rightarrow>
          (case snd (theta sp (map response train) (fit_mu model)) of
             Inl e \<Rightarrow> (no_files, Some e)
           | Inr (th, se) \<Rightarrow>
          (case p_values ext th (glm_predict ext model pred) (map response pred) of
             Inl e \<Rightarrow> (no_files, Some e)
           | Inr pv \<Rightarrow>
               write_outputs ext bed (nonZeroInput mat minInput)
                 \<lparr>p_score = Some (map (\<lambda>x. fneg (np_log10 ext x)) pv),
                  q_score = Some (map (\<lambda>x. fneg (np_log10 ext x)) (fdr_bh ext pv)),
                  pval = Some pv, pval_adj = Some (fdr_bh ext pv)\<rparr> threshold track))))))
       \<and> compress bed (nonZeroInput mat minInput) = bins
       \<and> zip bins pred
           = nths (zip bed mat) {i. i < length mat \<and> fgt (exposure (mat ! i)) minInput}
       \<and> train = compress pred (compress ns (nonZeroInput mat minInput))
       \<and> subseq train pred"
proof -
  let ?nz = "nonZeroInput mat minInput"
  have lns: "length ns = length mat"
    using assms(2) by (rule nonSliding_length)
  have lnz: "length ?nz = length mat"
    by (simp add: nonZeroInput_def)
  have tr: "training_rows mat ?nz ns = train"
    unfolding assms(5) using lns by (rule training_rows_nths)
  have pr: "prediction_rows mat ?nz = pred"
    unfolding assms(6) by (rule prediction_rows_nths)
  have bn: "compress bed ?nz = bins"
    unfolding assms(7) using assms(3) by (rule kept_bins_nths)
  have run: "call_peak ext sp bed bct cov track threshold q =
          (case poisson_glm ext train of
             Inl e \<Rightarrow> (no_files, Some e)
           | Inr model0 \<Rightarrow>
          (case snd (theta sp (map response train) (fit_mu model0)) of
             Inl e \<Rightarrow> (no_files, Some e)
           | Inr (th0, se0) \<Rightarrow>
          (case nb_alpha th0 of
             Inl e \<Rightarrow> (no_files, Some e)
           | Inr alpha \<Rightarrow>
          (case negbin_glm ext alpha train (fit_params model0) of
             Inl e \<Rightarrow> (no_files, Some e)
           | Inr model \<Rightarrow>
          (case snd (theta sp (map response train) (fit_mu model)) of
             Inl e \<Rightarrow> (no_files, Some e)
           | Inr (th, se) \<Rightarrow>
          (case p_values ext th (glm_predict ext model pred) (map response pred) of
             Inl e \<Rightarrow> (no_files, Some e)
           | Inr pv \<Rightarrow>
               write_outputs ext bed (nonZeroInput mat minInput)
                 \<lparr>p_score = Some (map (\<lambda>x. fneg (np_log10 ext x)) pv),
                  q_score = Some (map (\<lambda>x. fneg (np_log10 ext x)) (fdr_bh ext pv)),
                  pval = Some pv, pval_adj = Some (fdr_bh ext pv)\<rparr> threshold track))))))"
    unfolding call_peak_significance[OF assms(1,2,4)] tr pr
    by (simp add: significance_def split: sum.splits prod.splits)
  have "zip (compress bed ?nz) (compress mat ?nz) = compress (zip bed mat) ?nz"
    using assms(3) by (simp add: compress_zip)
  moreover have "compress (zip bed mat) ?nz
      = nths (zip bed mat) {i. i < length mat \<and> fgt (exposure (mat ! i)) minInput}"
    using kept_bins_nths[of "zip bed mat" mat minInput] assms(3) by simp
  ultimately have al: "zip bins pred
      = nths (zip bed mat) {i. i < length mat \<and> fgt (exposure (mat ! i)) minInput}"
    using bn pr by (simp add: prediction_rows_def)
  have tp: "train = compress pred (compress ns ?nz)"
    using lns lnz tr pr by (simp add: training_rows_def prediction_rows_def compress_and)
  have sub: "subseq train pred"
    by (subst tp) (rule subseq_compress)
  from run bn al tp sub show ?thesis
    by blast
qed


theorem call_peak_row_subsets_witness:
  "np_quantile quantile0_ext (filter (\<lambda>x. fgt x (Fin 0)) (map exposure example_mat)) (Fin 0) = Fin 3
   \<and> nths example_mat {i. i < length example_mat \<and> fgt (exposure (example_mat ! i)) (Fin 3)
        \<and> [True, False, True, True, False] ! i}
     = [example_mat ! 0, example_mat ! 2]
   \<and> nths example_mat {i. i < length example_mat \<and> fgt (exposure (example_mat ! i)) (Fin 3)}
     = [example_mat ! 0, example_mat ! 1, example_mat ! 2]
   \<and> nths example_bed {i. i < length example_mat \<and> fgt (exposure (example_mat ! i)) (Fin 3)}
     = [example_bed ! 0, example_bed ! 1, example_bed ! 2]
   \<and> call_peak quantile0_ext stand_in example_bed example_bct example_cov [] (Fin 1) (Fin 0)
     = (no_files\<lparr>peak_bed := Some (map (\<lambda>b. \<lparr>pk_bin = b, pk_p_score = Fin 0, pk_q_score = Fin 0,
                                               pk_pval = Fin (1 / 2), pk_pval_adj = Fin (1 / 2)\<rparr>)
                                     [example_bed ! 0, example_bed ! 1, example_bed ! 2]),
                 pval_bedGraph := Some []\<rparr>,
        Some UnboundLocalError)"
proof -
  have l: "length example_bed = length example_mat"
    by (simp add: example_bed_def example_mat_def)
  have f: "poisson_glm quantile0_ext = poisson_glm stand_in_ext"
    "negbin_glm quantile0_ext = negbin_glm stand_in_ext"
    "glm_predict quantile0_ext = glm_predict stand_in_ext"
    "nbinom_cdf quantile0_ext = nbinom_cdf stand_in_ext"
    "fdr_bh quantile0_ext = (\<lambda>ps. ps)" "np_log10 quantile0_ext = (\<lambda>x. Fin 0)"
    by (simp_all add: quantile0_ext_def stand_in_ext_def)
  have c: "compress example_bed [True, True, True, False, False]
      = [example_bed ! 0, example_bed ! 1, example_bed ! 2]"
    by (simp add: example_bed_def)
  from call_peak_row_subsets[OF example_merge example_ns l example_min_input[symmetric]
      example_train3[symmetric] example_pred3[symmetric] example_bins3[symmetric],
      of stand_in "[]" "Fin 1"]
  have "call_peak quantile0_ext stand_in example_bed example_bct example_cov [] (Fin 1) (Fin 0)
     = (no_files\<lparr>peak_bed := Some (map (\<lambda>b. \<lparr>pk_bin = b, pk_p_score = Fin 0, pk_q_score = Fin 0,
                                               pk_pval = Fin (1 / 2), pk_pval_adj = Fin (1 / 2)\<rparr>)
                                     [example_bed ! 0, example_bed ! 1, example_bed ! 2]),
                 pval_bedGraph := Some []\<rparr>,
        Some UnboundLocalError)"
    by (simp add: f stand_in_ext_def example_mat_def theta_stand_in_converged
        nb_alpha_def one_over_def p_values_def fsub_def example_nz3 c
        write_outputs_def load_def no_files_def)
  with example_min_input example_train3 example_pred3 example_bins3 show ?thesis
    by (simp only: simp_thms)
qed

section \<open>Properties of the significance computation and of the output files\<close>

lemma p_values_nth:
  assumes "p_values ext th y_hat ys = Inr pv"
  shows "length pv = length ys
       \<and> (\<forall>i<length ys. pv ! i =
            fsub (Fin 1) (nbinom_cdf ext (fsub (ys ! i) (Fin 1)) (to_float th)
                            (fdiv (to_float th) (fadd (to_float th) (y_hat ! i)))))"
  using assms by (auto simp: p_values_def Let_def split: if_splits)

lemma nb_mean_parameterisation:
  assumes "0 < t" and "0 < m"
  shows "nb_mean (Fin t) (fdiv (Fin t) (fadd (Fin t) (Fin m))) = Fin m"
proof -
  have "t + m \<noteq> 0" and "t / (t + m) \<noteq> 0"
    using assms by auto
  moreover have "t * (1 - t / (t + m)) / (t / (t + m)) = m"
  proof -
    have "1 - t / (t + m) = m / (t + m)"
      using assms by (simp add: field_simps)
    then have "t * (1 - t / (t + m)) / (t / (t + m)) = (t * m / (t + m)) / (t / (t + m))"
      by simp
    also have "\<dots> = m"
      using assms by simp
    finally show ?thesis .
  qed
  ultimately show ?thesis
    by (simp add: nb_mean_def fsub_def)
qed

lemma example_significance:
  "significance stand_in_ext stand_in [example_mat ! 0, example_mat ! 2]
       [example_mat ! 0, example_mat ! 1, example_mat ! 2, example_mat ! 4]
     = Inr [Fin (1 / 2), Fin (1 / 2), Fin (1 / 2), Fin (1 / 2)]"
  by (simp add: significance_def stand_in_ext_def example_mat_def theta_stand_in_converged
      nb_alpha_def one_over_def p_values_def fsub_def)

text \<open>
  C5.  When the significance computation succeeds, the p-value of the \<open>i\<close>-th
  sufficiently covered bin is \<open>1 - nbinom.cdf(y - 1, n = th, p = th / (th + y_hat))\<close>, with
  \<open>y\<close> the response of that bin, \<open>y_hat\<close> its predicted mean under the refitted model
  and \<open>th\<close> the second dispersion estimate; and a negative binomial with these
  parameters has mean \<open>y_hat\<close>.  The distribution function is scipy's and a parameter
  here.
\<close>

theorem significance_p_values:
  assumes "significance ext sp train pred = Inr pv"
  shows "\<exists>model0 th0 se0 alpha model th se.
           poisson_glm ext train = Inr model0
         \<and> snd (theta sp (map response train) (fit_mu model0)) = Inr (th0, se0)
         \<and> nb_alpha th0 = Inr alpha
         \<and> negbin_glm ext alpha train (fit_params model0) = Inr model
         \<and> snd (theta sp (map response train) (fit_mu model)) = Inr (th, se)
         \<and> length pv = length pred
         \<and> (\<forall>i<length pred. pv ! i =
              fsub (Fin 1)
                (nbinom_cdf ext (fsub (response (pred ! i)) (Fin 1)) (to_float th)
                   (fdiv (to_float th) (fadd (to_float th) (glm_predict ext model pred ! i)))))
         \<and> (\<forall>t m. 0 < t \<and> 0 < m \<longrightarrow>
              nb_mean (Fin t) (fdiv (Fin t) (fadd (Fin t) (Fin m))) = Fin m)"
proof -
  from assms obtain model0 where m0: "poisson_glm ext train = Inr model0"
    by (auto simp: significance_def split: sum.splits)
  from assms m0 obtain th0 se0 where t0:
    "snd (theta sp (map response train) (fit_mu model0)) = Inr (th0, se0)"
    by (auto simp: significance_def split: sum.splits)
  from assms m0 t0 obtain alpha where al: "nb_alpha th0 = Inr alpha"
    by (auto simp: significance_def split: sum.splits)
  from assms m0 t0 al obtain model where m:
    "negbin_glm ext alpha train (fit_params model0) = Inr model"
    by (auto simp: significance_def split: sum.splits)
  from assms m0 t0 al m obtain th se where t:
    "snd (theta sp (map response train) (fit_mu model)) = Inr (th, se)"
    by (auto simp: significance_def split: sum.splits)
  from assms m0 t0 al m t have
    pv: "p_values ext th (glm_predict ext model pred) (map response pred) = Inr pv"
    by (simp add: significance_def)
  from p_values_nth[OF pv] have
    "length pv = length pred"
    "\<forall>i<length pred. pv ! i =
        fsub (Fin 1)
          (nbinom_cdf ext (fsub (response (pred ! i)) (Fin 1)) (to_float th)
             (fdiv (to_float th) (fadd (to_float th) (glm_predict ext model pred ! i))))"
    by simp_all
  with m0 t0 al m t nb_mean_parameterisation show ?thesis
    by blast
qed

theorem significance_p_values_witness:
  "significance stand_in_ext stand_in [example_mat ! 0, example_mat ! 2]
       [example_mat ! 0, example_mat ! 1, example_mat ! 2, example_mat ! 4]
     = Inr [Fin (1 / 2), Fin (1 / 2), Fin (1 / 2), Fin (1 / 2)]
   \<and> nb_mean (Fin 1) (fdiv (Fin 1) (fadd (Fin 1) (Fin 3))) = Fin 3"
proof -
  from significance_p_values[OF example_significance]
  have "\<forall>t m. 0 < t \<and> 0 < m \<longrightarrow>
      nb_mean (Fin t) (fdiv (Fin t) (fadd (Fin t) (Fin m))) = Fin m"
    by blast
  then have "0 < (1::real) \<and> 0 < (3::real) \<longrightarrow>
      nb_mean (Fin 1) (fdiv (Fin 1) (fadd (Fin 1) (Fin 3))) = Fin 3"
    by blast
  then have "nb_mean (Fin 1) (fdiv (Fin 1) (fadd (Fin 1) (Fin 3))) = Fin 3"
    by simp
  with example_significance show ?thesis by simp
qed

lemma length_compress_eq:
  "length xs = length ys \<Longrightarrow> length (compress xs sel) = length (compress ys sel)"
proof (induction xs ys arbitrary: sel rule: list_induct2)
  case Nil
  then show ?case by simp
next
  case (Cons x xs y ys)
  then show ?case by (cases sel) simp_all
qed

lemma significance_length:
  "significance ext sp train pred = Inr pv \<Longrightarrow> length pv = length pred"
  by (auto simp: significance_def p_values_def Let_def split: sum.splits prod.splits if_splits)

lemma peak_loop_ok:
  assumes "p_score env = Some a" "q_score env = Some b" "pval env = Some c" "pval_adj env = Some d"
    and "i + length bs \<le> length a" "i + length bs \<le> length b"
    and "i + length bs \<le> length c" "i + length bs \<le> length d"
  shows "snd (peak_loop env threshold i bs) = None"
  using assms(5-8)
proof (induction bs arbitrary: i)
  case Nil
  then show ?case by simp
next
  case (Cons x bs)
  from Cons.prems have "snd (peak_loop env threshold (Suc i) bs) = None"
    by (intro Cons.IH) simp_all
  with Cons.prems assms(1-4) show ?case
    by (auto simp: load_def split: prod.splits)
qed

lemma track_loop_unbound:
  "p_score env = None \<Longrightarrow> bs \<noteq> [] \<Longrightarrow> track_loop env i bs = ([], Some UnboundLocalError)"
  by (cases bs) (simp_all add: load_def)

lemma example_significance_rows:
  "significance stand_in_ext stand_in
      (training_rows example_mat [True, True, True, False, True] [True, False, True, True, False])
      (prediction_rows example_mat [True, True, True, False, True])
      = Inr [Fin (1 / 2), Fin (1 / 2), Fin (1 / 2), Fin (1 / 2)]"
  by (simp only: example_train example_pred example_significance)

lemma example_call_peak:
  "call_peak stand_in_ext stand_in example_bed example_bct example_cov [] (Fin 1) (Fin 0)
     = (no_files\<lparr>peak_bed := Some example_peak_lines, pval_bedGraph := Some []\<rparr>,
        Some UnboundLocalError)"
proof -
  have q: "np_quantile stand_in_ext (positive_exposures example_mat) (Fin 0) = Fin 0"
    by (simp add: stand_in_ext_def)
  have f: "fdr_bh stand_in_ext = (\<lambda>ps. ps)" "np_log10 stand_in_ext = (\<lambda>x. Fin 0)"
    by (simp_all add: stand_in_ext_def)
  have c: "compress example_bed [True, True, True, False, True]
      = [example_bed ! 0, example_bed ! 1, example_bed ! 2, example_bed ! 4]"
    by (simp add: example_bed_def)
  show ?thesis
    unfolding call_peak_def example_merge
    by (simp add: q example_nz example_ns example_significance_rows f c
        write_outputs_def load_def example_peak_lines_def no_files_def)
qed

text \<open>
  C1.  After a successful significance computation with at least one sufficiently covered
  bin, \<^verbatim>\<open>call_peak\<close> writes the peak file, runs \<^verbatim>\<open>del p_score, q_score\<close>, opens the
  p-value track and reads \<^verbatim>\<open>p_score[i]\<close> for its first line: the unbound local raises
  \<^verbatim>\<open>UnboundLocalError\<close>.  The track is left empty, and the merged-peak and
  centered-peak files are never written.
\<close>

theorem call_peak_pval_track_fails:
  assumes "merge_data bct cov = Inr mat"
    and "nonSliding (length mat) bed = Inr ns"
    and "length bed = length mat"
    and "nz = nonZeroInput mat (np_quantile ext (positive_exposures mat) q)"
    and "significance ext sp (training_rows mat nz ns) (prediction_rows mat nz) = Inr pv"
    and "length (fdr_bh ext pv) = length pv"
    and "compress bed nz \<noteq> []"
  shows "\<exists>peak_lines. call_peak ext sp bed bct cov track threshold q
           = (no_files\<lparr>peak_bed := Some peak_lines, pval_bedGraph := Some []\<rparr>,
              Some UnboundLocalError)"
proof -
  define env where "env = \<lparr>p_score = Some (map (\<lambda>x. fneg (np_log10 ext x)) pv),
      q_score = Some (map (\<lambda>x. fneg (np_log10 ext x)) (fdr_bh ext pv)),
      pval = Some pv, pval_adj = Some (fdr_bh ext pv)\<rparr>"
  have lpv: "length pv = length (compress bed nz)"
    using significance_length[OF assms(5)] length_compress_eq[OF assms(3), of nz]
    by (simp add: prediction_rows_def)
  have "snd (peak_loop env threshold 0 (compress bed nz)) = None"
    by (rule peak_loop_ok[where a = "map (\<lambda>x. fneg (np_log10 ext x)) pv"
          and b = "map (\<lambda>x. fneg (np_log10 ext x)) (fdr_bh ext pv)"
          and c = pv and d = "fdr_bh ext pv"])
       (simp_all add: env_def lpv assms(6))
  then obtain peak_lines where pl: "peak_loop env threshold 0 (compress bed nz) = (peak_lines, None)"
    by (cases "peak_loop env threshold 0 (compress bed nz)") auto
  have tl: "track_loop (env\<lparr>p_score := None, q_score := None\<rparr>) 0 (compress bed nz)
      = ([], Some UnboundLocalError)"
    using assms(7) by (intro track_loop_unbound) simp_all
  have "write_outputs ext bed nz env threshold track
      = (no_files\<lparr>peak_bed := Some peak_lines, pval_bedGraph := Some []\<rparr>, Some UnboundLocalError)"
    by (simp add: write_outputs_def pl tl)
  then have "call_peak ext sp bed bct cov track threshold q
      = (no_files\<lparr>peak_bed := Some peak_lines, pval_bedGraph := Some []\<rparr>, Some UnboundLocalError)"
    using assms(1,2,4,5) by (simp add: call_peak_def Let_def env_def)
  then show ?thesis by blast
qed

theorem call_peak_pval_track_fails_witness:
  "call_peak stand_in_ext stand_in example_bed example_bct example_cov [] (Fin 1) (Fin 0)
     = (no_files\<lparr>peak_bed := Some example_peak_lines, pval_bedGraph := Some []\<rparr>,
        Some UnboundLocalError)"
proof -
  have l: "length example_bed = length example_mat"
    by (simp add: example_bed_def example_mat_def)
  have nz: "[True, True, True, False, True]
      = nonZeroInput example_mat (np_quantile stand_in_ext (positive_exposures example_mat) (Fin 0))"
    by (simp add: stand_in_ext_def example_nz)
  have s: "significance stand_in_ext stand_in
      (training_rows example_mat [True, True, True, False, True] [True, False, True, True, False])
      (prediction_rows example_mat [True, True, True, False, True])
      = Inr [Fin (1 / 2), Fin (1 / 2), Fin (1 / 2), Fin (1 / 2)]"
    by (rule example_significance_rows)
  have f: "length (fdr_bh stand_in_ext [Fin (1 / 2), Fin (1 / 2), Fin (1 / 2), Fin (1 / 2)])
      = length [Fin (1 / 2), Fin (1 / 2), Fin (1 / 2), Fin (1 / 2 :: real)]"
    by (simp add: stand_in_ext_def)
  have c: "compress example_bed [True, True, True, False, True] \<noteq> []"
    by (simp add: example_bed_def)
  from call_peak_pval_track_fails[OF example_merge example_ns l nz s f c, of "[]" "Fin 1"]
  show ?thesis
    by (simp add: example_call_peak)
qed

end
